theory Spec2Isabelle
  imports Complex_Main "HOL-Library.Word"
begin

section \<open>The landscape viewer of window.c\<close>

text \<open>
  The program keeps its data in file-level statics: the size and the scales of the
  generated height map, a pointer to the height samples, a few GL object names, the cycle
  phase, a virtual keyboard of four flags and the camera. They are collected here in one
  record that every callback receives and returns.

  Numbers: \<open>int\<close> variables are \<open>int\<close> and \<open>GLuint\<close> values are 32-bit words. A
  \<open>GLfloat\<close> or \<open>double\<close> value is the real number that it denotes, and the arithmetic is
  that of IEEE 754 with the default rounding: every operation on \<open>double\<close> operands yields
  the binary64 number nearest to the exact result, and every conversion to \<open>GLfloat\<close> the
  nearest binary32 number, ties going to the even significand. An expression is evaluated
  in the type that C gives it, one rounding for each operation. Overflow is left out: the
  exponent has no upper bound, so that infinities and NaN do not occur. \<open>sin\<close> and \<open>cos\<close>
  are functions of libm; the tick takes them as parameters.
\<close>

subsection \<open>Floating-point numbers\<close>

text \<open>Rounding to the nearest integer, a tie to the even one.\<close>

definition round_half_even :: "real \<Rightarrow> int" where
  "round_half_even y =
     (let f = \<lfloor>y\<rfloor>; r = y - of_int f
      in if r < 1 / 2 then f else if 1 / 2 < r then f + 1 else if even f then f else f + 1)"

text \<open>
  Rounding to a binary format with \<open>p\<close> digits in the significand and the least exponent
  \<open>emin\<close> of a unit in the last place: the result is the nearest multiple of that unit,
  which is \<open>2 ^ (k - p + 1)\<close> for a number between \<open>2 ^ k\<close> and \<open>2 ^ (k + 1)\<close>, and
  \<open>2 ^ emin\<close> for the subnormal numbers.
\<close>

definition fl_round :: "nat \<Rightarrow> int \<Rightarrow> real \<Rightarrow> real" where
  "fl_round p emin x =
     (if x = 0 then 0
      else let e = max emin (\<lfloor>log 2 \<bar>x\<bar>\<rfloor> - int p + 1)
           in of_int (round_half_even (x / 2 powi e)) * 2 powi e)"

text \<open>\<open>float\<close> is binary32, \<open>double\<close> is binary64.\<close>

definition f32 :: "real \<Rightarrow> real" where
  "f32 = fl_round 24 (- 149)"

definition f64 :: "real \<Rightarrow> real" where
  "f64 = fl_round 53 (- 1074)"

text \<open>
  \<open>a += d\<close> and \<open>a -= d\<close> for a \<open>GLfloat\<close> variable and a \<open>double\<close> operand: the
  variable is converted to \<open>double\<close>, the sum is a \<open>double\<close>, and the store converts it
  to \<open>GLfloat\<close>.
\<close>

definition add_assign :: "real \<Rightarrow> real \<Rightarrow> real" where
  "add_assign a d = f32 (f64 (a + d))"

definition sub_assign :: "real \<Rightarrow> real \<Rightarrow> real" where
  "sub_assign a d = f32 (f64 (a - d))"

text \<open>\<open>M_PI\<close>, the \<open>double\<close> nearest to the decimal constant of \<open>math.h\<close>.\<close>

definition M_PI :: real where
  "M_PI = 884279719003555 / 2 ^ 48"

subsection \<open>Data\<close>

datatype kyes_t = KLEFT | KRIGHT | KUP | KDOWN

record cam_t =
  cam_x :: real
  cam_z :: real
  cam_theta :: real

text \<open>The values the query \<open>GL_POLYGON_MODE\<close> can report for a face.\<close>

datatype polygon_mode = GL_POINT | GL_LINE | GL_FILL

text \<open>
  \<open>heightMap\<close> is the pointer itself (\<open>0\<close> is \<open>NULL\<close>); \<open>heap\<close> gives the blocks that
  are allocated at the moment, each with its samples. \<open>t0\<close> is the static of \<open>get_dt\<close>.
  \<open>polygon_front\<close> and \<open>polygon_back\<close> are the two values of the GL context that
  \<open>glGetIntegerv(GL_POLYGON_MODE, v)\<close> writes to \<open>v[0]\<close> and \<open>v[1]\<close>, and \<open>textures\<close>
  are the texture names that exist in the context.
\<close>

record app_state =
  windowWidth :: int
  windowHeight :: int
  landscape_w :: int
  landscape_h :: int
  landscape_scale_xz :: real
  landscape_scale_y :: real
  heightMap :: nat
  plan :: "32 word"
  landscape :: "32 word"
  landscape_pId :: "32 word"
  terrain_tId :: "32 word"
  cycle :: real
  keys :: "kyes_t \<Rightarrow> 32 word"
  cam :: cam_t
  t0 :: real
  heap :: "nat \<rightharpoonup> real list"
  polygon_front :: polygon_mode
  polygon_back :: polygon_mode
  textures :: "32 word set"

datatype error = NullPointer | InvalidRead | InvalidFree

subsection \<open>Altitude of the camera: \<open>heightMapAltitude\<close>\<close>

text \<open>The conversion \<open>(int)x\<close> of C drops the fractional part (towards zero).\<close>

definition c_int_cast :: "real \<Rightarrow> int" where
  "c_int_cast v = (if 0 \<le> v then \<lfloor>v\<rfloor> else \<lceil>v\<rceil>)"

text \<open>Reading \<open>p[i]\<close>: the block must be allocated and hold the index.\<close>

definition load :: "app_state \<Rightarrow> nat \<Rightarrow> int \<Rightarrow> error + real" where
  "load s p i =
     (if p = 0 then Inl NullPointer
      else case heap s p of
             None \<Rightarrow> Inl InvalidRead
           | Some xs \<Rightarrow> if 0 \<le> i \<and> nat i < length xs then Inr (xs ! nat i) else Inl InvalidRead)"

text \<open>
  The two assignments that open \<open>heightMapAltitude\<close>. \<open>_landscape_w >> 1\<close> is the integer
  half and \<open>_landscape_w / 2.0\<close> the real half, a \<open>double\<close>. The quotient
  \<open>x / _landscape_scale_xz\<close> has two \<open>GLfloat\<close> operands and is a \<open>GLfloat\<close>; the product
  and the sum are \<open>double\<close>; the assignment stores a \<open>GLfloat\<close>.
\<close>

definition grid_x :: "app_state \<Rightarrow> real \<Rightarrow> real" where
  "grid_x s x =
     f32 (f64 (of_int (landscape_w s div 2)
               + f64 (f32 (x / landscape_scale_xz s) * f64 (of_int (landscape_w s) / 2))))"

definition grid_z :: "app_state \<Rightarrow> real \<Rightarrow> real" where
  "grid_z s z =
     f32 (f64 (of_int (landscape_h s div 2)
               - f64 (f32 (z / landscape_scale_xz s) * f64 (of_int (landscape_h s) / 2))))"

text \<open>
  The guard compares the stored coordinates (with the sizes converted to \<open>float\<close>, which
  changes no size up to \<open>2 ^ 24\<close>). The altitude is computed in \<open>double\<close> and returned as
  a \<open>GLfloat\<close>.
\<close>

definition heightMapAltitude :: "real \<Rightarrow> real \<Rightarrow> app_state \<Rightarrow> error + real" where
  "heightMapAltitude x z s =
     (let x = grid_x s x;
          z = grid_z s z
      in if x \<ge> 0 \<and> x < of_int (landscape_w s) \<and> z \<ge> 0 \<and> z < of_int (landscape_h s)
         then (case load s (heightMap s) (c_int_cast x + c_int_cast z * landscape_w s) of
                 Inl e \<Rightarrow> Inl e
               | Inr v \<Rightarrow> Inr (f32 (f64 (f64 (f64 (2 * v) - 1) * landscape_scale_y s))))
         else Inr 0)"

text \<open>
  The statics as the program has them after \<open>init\<close>, with a height map whose samples are
  all \<open>1\<close> in a block at address \<open>1\<close>.
\<close>

definition flat_state :: app_state where
  "flat_state =
     \<lparr>windowWidth = 800, windowHeight = 600, landscape_w = 513, landscape_h = 513,
      landscape_scale_xz = 100, landscape_scale_y = 10, heightMap = 1, plan = 1,
      landscape = 2, landscape_pId = 3, terrain_tId = 1, cycle = 0,
      keys = (\<lambda>k. 0), cam = \<lparr>cam_x = 0, cam_z = 0, cam_theta = 0\<rparr>, t0 = 0,
      heap = [1 \<mapsto> replicate (513 * 513) 1],
      polygon_front = GL_FILL, polygon_back = GL_FILL, textures = {1}\<rparr>"

text \<open>
  The height field is in place: the pointer is not null, its block is allocated and holds
  a sample for every grid node, and the horizontal scale is positive.
\<close>

definition height_field_ok :: "app_state \<Rightarrow> real list \<Rightarrow> bool" where
  "height_field_ok s hm \<longleftrightarrow>
     heightMap s \<noteq> 0 \<and> heap s (heightMap s) = Some hm \<and>
     nat (landscape_w s * landscape_h s) \<le> length hm \<and> 0 < landscape_scale_xz s"

subsection \<open>Simulation tick: \<open>get_dt\<close> and \<open>idle\<close>\<close>

text \<open>
  \<open>get_dt\<close> reads the clock of the host, \<open>gl4dGetElapsedTime()\<close>, in milliseconds; the
  value read is the argument \<open>t\<close>. It returns the seconds since the previous call and
  remembers \<open>t\<close>.
\<close>

definition get_dt :: "real \<Rightarrow> app_state \<Rightarrow> real \<times> app_state" where
  "get_dt t s = (let dt = f64 (f64 (t - t0 s) / 1000) in (dt, s\<lparr>t0 := t\<rparr>))"

text \<open>A flag of the virtual keyboard is set when its \<open>GLuint\<close> is not zero.\<close>

definition held :: "app_state \<Rightarrow> kyes_t \<Rightarrow> bool" where
  "held s k \<longleftrightarrow> keys s k \<noteq> 0"

text \<open>
  \<open>sn\<close> and \<open>cs\<close> are the \<open>sin\<close> and \<open>cos\<close> of libm, from \<open>double\<close> to \<open>double\<close>.
  \<open>dt\<close>, \<open>dtheta\<close> and \<open>pas\<close> are \<open>double\<close>; \<open>_cycle\<close> and the three fields of the camera
  are \<open>GLfloat\<close>.
\<close>

definition idle :: "(real \<Rightarrow> real) \<Rightarrow> (real \<Rightarrow> real) \<Rightarrow> real \<Rightarrow> app_state \<Rightarrow> app_state" where
  "idle sn cs t s =
     (let dtheta = M_PI; pas = 5;
          (dt, s) = get_dt t s;
          s = s\<lparr>cycle := add_assign (cycle s) dt\<rparr>;
          s = (if held s KLEFT
               then s\<lparr>cam := (cam s)
                      \<lparr>cam_theta := add_assign (cam_theta (cam s)) (f64 (dt * dtheta))\<rparr>\<rparr>
               else s);
          s = (if held s KRIGHT
               then s\<lparr>cam := (cam s)
                      \<lparr>cam_theta := sub_assign (cam_theta (cam s)) (f64 (dt * dtheta))\<rparr>\<rparr>
               else s);
          s = (if held s KUP
               then s\<lparr>cam := (cam s)
                      \<lparr>cam_x := add_assign (cam_x (cam s))
                                  (f64 (f64 (- dt * pas) * sn (cam_theta (cam s)))),
                       cam_z := add_assign (cam_z (cam s))
                                  (f64 (f64 (- dt * pas) * cs (cam_theta (cam s))))\<rparr>\<rparr>
               else s);
          s = (if held s KDOWN
               then s\<lparr>cam := (cam s)
                      \<lparr>cam_x := add_assign (cam_x (cam s))
                                  (f64 (f64 (dt * pas) * sn (cam_theta (cam s)))),
                       cam_z := add_assign (cam_z (cam s))
                                  (f64 (f64 (dt * pas) * cs (cam_theta (cam s))))\<rparr>\<rparr>
               else s)
      in s)"

text \<open>The seconds that a tick at clock value \<open>t\<close> sees.\<close>

definition tick_dt :: "real \<Rightarrow> app_state \<Rightarrow> real" where
  "tick_dt t s = fst (get_dt t s)"


subsection \<open>Keyboard: \<open>keydown\<close> and \<open>keyup\<close>\<close>

text \<open>The key codes, with the values of SDL2's \<open>SDL_keycode.h\<close> and of the C characters.\<close>

definition SDLK_RIGHT :: int where "SDLK_RIGHT = 1073741903"
definition SDLK_LEFT :: int where "SDLK_LEFT = 1073741904"
definition SDLK_DOWN :: int where "SDLK_DOWN = 1073741905"
definition SDLK_UP :: int where "SDLK_UP = 1073741906"
definition SDLK_ESCAPE :: int where "SDLK_ESCAPE = 27"
definition key_w :: int where "key_w = 119"
definition key_q :: int where "key_q = 113"

text \<open>\<open>glPolygonMode(GL_FRONT_AND_BACK, m)\<close> sets the mode of both faces.\<close>

definition glPolygonMode_FRONT_AND_BACK :: "polygon_mode \<Rightarrow> app_state \<Rightarrow> app_state" where
  "glPolygonMode_FRONT_AND_BACK m s = s\<lparr>polygon_front := m, polygon_back := m\<rparr>"

text \<open>
  \<open>keydown\<close> ends the process on Escape and \<open>q\<close>: the result \<open>Inl 0\<close> is \<open>exit(0)\<close>.
  The cases are those of the \<open>switch\<close>, in its order; \<open>v0\<close> is \<open>v[0]\<close> after
  \<open>glGetIntegerv(GL_POLYGON_MODE, v)\<close>.
\<close>

definition keydown :: "int \<Rightarrow> app_state \<Rightarrow> int + app_state" where
  "keydown keycode s =
     (if keycode = SDLK_LEFT then Inr (s\<lparr>keys := (keys s)(KLEFT := 1)\<rparr>)
      else if keycode = SDLK_RIGHT then Inr (s\<lparr>keys := (keys s)(KRIGHT := 1)\<rparr>)
      else if keycode = SDLK_UP then Inr (s\<lparr>keys := (keys s)(KUP := 1)\<rparr>)
      else if keycode = SDLK_DOWN then Inr (s\<lparr>keys := (keys s)(KDOWN := 1)\<rparr>)
      else if keycode = key_w then
        (let v0 = polygon_front s
         in if v0 = GL_FILL then Inr (glPolygonMode_FRONT_AND_BACK GL_LINE s)
            else Inr (glPolygonMode_FRONT_AND_BACK GL_FILL s))
      else if keycode = SDLK_ESCAPE \<or> keycode = key_q then Inl 0
      else Inr s)"

definition keyup :: "int \<Rightarrow> app_state \<Rightarrow> app_state" where
  "keyup keycode s =
     (if keycode = SDLK_LEFT then s\<lparr>keys := (keys s)(KLEFT := 0)\<rparr>
      else if keycode = SDLK_RIGHT then s\<lparr>keys := (keys s)(KRIGHT := 0)\<rparr>
      else if keycode = SDLK_UP then s\<lparr>keys := (keys s)(KUP := 0)\<rparr>
      else if keycode = SDLK_DOWN then s\<lparr>keys := (keys s)(KDOWN := 0)\<rparr>
      else s)"

text \<open>One press of the wireframe key, for a process that goes on.\<close>

definition toggle_wireframe :: "app_state \<Rightarrow> app_state" where
  "toggle_wireframe s = (case keydown key_w s of Inl _ \<Rightarrow> s | Inr s' \<Rightarrow> s')"

text \<open>The recognised key codes of the two handlers.\<close>

definition recognised_keys :: "int set" where
  "recognised_keys =
     {SDLK_LEFT, SDLK_RIGHT, SDLK_UP, SDLK_DOWN, key_w, SDLK_ESCAPE, key_q}"

subsection \<open>Calls to the host layer\<close>

text \<open>
  \<open>draw\<close> and \<open>quit\<close> act on the outside through calls to GL, to GL4Dummies and to
  noise.c. The model returns these calls, with their arguments, in the order in which
  the function makes them. A model-view matrix is the list of the operations applied to
  it since the identity, and \<open>MMAT4XVEC4\<close> stands for the product of such a matrix with
  a vector.
\<close>

datatype mat_op =
    LookAt real real real real real real real real real
  | Scale real real real
  | Rotate real real real real

datatype vec4 = MMAT4XVEC4 "mat_op list" real real real real

datatype call =
    SDL_PumpEvents
  | SDL_GetMouseState
  | glClear
  | gl4duBindMatrix string
  | gl4duLoadIdentityf
  | gl4duLookAtf real real real real real real real real real
  | glUseProgram "32 word"
  | gl4duGetMatrixData
  | gl4duScalef real real real
  | gl4duSendMatrices
  | glUniform4fv "32 word" string vec4
  | glUniform1i "32 word" string int
  | glUniform1f "32 word" string real
  | glBindTexture_1D "32 word"
  | useNoiseTextures "32 word" int
  | gl4dgDraw "32 word"
  | gl4duRotatef real real real real
  | unuseNoiseTextures int
  | freeNoiseTextures
  | free nat
  | glDeleteTextures "32 word"
  | gl4duClean

subsection \<open>Frame: \<open>draw\<close>\<close>

text \<open>
  \<open>ym\<close> is the pointer row that \<open>SDL_GetMouseState\<close> reports. \<open>_windowHeight >> 1\<close> is
  the integer half. The frame fails where the altitude lookup reads outside its block.
  The arguments of \<open>gl4duLookAtf\<close> are written as the expressions of the source, with
  the exact sine and cosine and before their conversion to \<open>GLfloat\<close>.
\<close>

definition draw :: "int \<Rightarrow> app_state \<Rightarrow> error + call list" where
  "draw ym s =
     (case heightMapAltitude (cam_x (cam s)) (cam_z (cam s)) s of
        Inl e \<Rightarrow> Inl e
      | Inr landscape_y \<Rightarrow>
          let ex = cam_x (cam s); ey = landscape_y + 2; ez = cam_z (cam s);
              tx = cam_x (cam s) - sin (cam_theta (cam s));
              ty = landscape_y + 2
                   - of_int (ym - windowHeight s div 2) / of_int (windowHeight s);
              tz = cam_z (cam s) - cos (cam_theta (cam s));
              mat = [LookAt ex ey ez tx ty tz 0 1 0];
              lumpos = MMAT4XVEC4 mat 100 100 0 1;
              pId = landscape_pId s
          in Inr
            [SDL_PumpEvents, SDL_GetMouseState, glClear,
             gl4duBindMatrix ''modelViewMatrix'', gl4duLoadIdentityf,
             gl4duLookAtf ex ey ez tx ty tz 0 1 0,
             glUseProgram pId, gl4duGetMatrixData,
             gl4duScalef (landscape_scale_xz s) (landscape_scale_y s) (landscape_scale_xz s),
             gl4duSendMatrices,
             glUniform4fv pId ''lumpos'' lumpos,
             glUniform1i pId ''degrade'' 0,
             glUniform1i pId ''eau'' 0,
             glUniform1f pId ''cycle'' (cycle s),
             glBindTexture_1D (terrain_tId s),
             useNoiseTextures pId 1,
             gl4dgDraw (landscape s),
             gl4duRotatef (- 90) 1 0 0,
             gl4duSendMatrices,
             glUniform1i pId ''eau'' 1,
             gl4dgDraw (plan s),
             unuseNoiseTextures 1])"

text \<open>
  What a draw submission meets: the mesh, the program in use, the value of its uniform
  \<open>eau\<close> (the surface selector), the 1D texture bound, the noise textures in use (program
  and shift) and the model-view matrix last sent.
\<close>

record submission =
  sub_mesh :: "32 word"
  sub_program :: "32 word"
  sub_eau :: "int option"
  sub_texture_1d :: "32 word"
  sub_noise :: "(32 word \<times> int) option"
  sub_matrix :: "mat_op list"

record gl_machine =
  m_program :: "32 word"
  m_uniform1i :: "32 word \<times> string \<rightharpoonup> int"
  m_texture_1d :: "32 word"
  m_noise :: "(32 word \<times> int) option"
  m_modelview :: "mat_op list"
  m_sent :: "mat_op list"
  m_submissions :: "submission list"

text \<open>
  Modelled from the spec: GL, GL4Dummies and noise.c are not among the sources. This is
  the part of their contract that the render passes rely on: a uniform keeps the value
  last set, a texture stays bound, \<open>useNoiseTextures\<close> binds the noise textures until
  \<open>unuseNoiseTextures\<close> releases them, the matrix operations compose on the bound matrix
  and reach the GPU at \<open>gl4duSendMatrices\<close>, and \<open>gl4dgDraw\<close> submits a mesh under the
  state of that moment.
\<close>

fun gl_step :: "gl_machine \<Rightarrow> call \<Rightarrow> gl_machine" where
  "gl_step m gl4duLoadIdentityf = m\<lparr>m_modelview := []\<rparr>"
| "gl_step m (gl4duLookAtf ex ey ez tx ty tz ux uy uz) =
     m\<lparr>m_modelview := m_modelview m @ [LookAt ex ey ez tx ty tz ux uy uz]\<rparr>"
| "gl_step m (gl4duScalef a b c) = m\<lparr>m_modelview := m_modelview m @ [Scale a b c]\<rparr>"
| "gl_step m (gl4duRotatef a b c d) = m\<lparr>m_modelview := m_modelview m @ [Rotate a b c d]\<rparr>"
| "gl_step m gl4duSendMatrices = m\<lparr>m_sent := m_modelview m\<rparr>"
| "gl_step m (glUseProgram p) = m\<lparr>m_program := p\<rparr>"
| "gl_step m (glUniform1i p n v) = m\<lparr>m_uniform1i := (m_uniform1i m)((p, n) \<mapsto> v)\<rparr>"
| "gl_step m (glBindTexture_1D t) = m\<lparr>m_texture_1d := t\<rparr>"
| "gl_step m (useNoiseTextures p sh) = m\<lparr>m_noise := Some (p, sh)\<rparr>"
| "gl_step m (unuseNoiseTextures sh) = m\<lparr>m_noise := None\<rparr>"
| "gl_step m (gl4dgDraw g) =
     m\<lparr>m_submissions := m_submissions m @
        [\<lparr>sub_mesh = g, sub_program = m_program m,
          sub_eau = m_uniform1i m (m_program m, ''eau''),
          sub_texture_1d = m_texture_1d m, sub_noise = m_noise m,
          sub_matrix = m_sent m\<rparr>]\<rparr>"
| "gl_step m _ = m"

definition gl_run :: "gl_machine \<Rightarrow> call list \<Rightarrow> gl_machine" where
  "gl_run m cs = foldl gl_step m cs"

definition is_draw :: "call \<Rightarrow> bool" where
  "is_draw c = (case c of gl4dgDraw _ \<Rightarrow> True | _ \<Rightarrow> False)"

subsection \<open>Shutdown: \<open>quit\<close>\<close>

text \<open>
  \<open>free(p)\<close> releases an allocated block; on a pointer that is not one (a block already
  freed) it is the error \<open>InvalidFree\<close>.
\<close>

definition c_free :: "nat \<Rightarrow> app_state \<Rightarrow> error + app_state" where
  "c_free p s =
     (if p = 0 then Inr s
      else if p \<in> dom (heap s) then Inr (s\<lparr>heap := (heap s)(p := None)\<rparr>)
      else Inl InvalidFree)"

text \<open>\<open>glDeleteTextures\<close> ignores a name that is no texture.\<close>

definition quit :: "app_state \<Rightarrow> error + call list \<times> app_state" where
  "quit s =
     (let cs = [freeNoiseTextures]
      in case (if heightMap s \<noteq> 0
               then (case c_free (heightMap s) s of
                       Inl e \<Rightarrow> Inl e
                     | Inr s' \<Rightarrow> Inr (cs @ [free (heightMap s)], s'\<lparr>heightMap := 0\<rparr>))
               else Inr (cs, s)) of
           Inl e \<Rightarrow> Inl e
         | Inr (cs, s) \<Rightarrow>
             let (cs, s) =
                   (if terrain_tId s \<noteq> 0
                    then (cs @ [glDeleteTextures (terrain_tId s)],
                          s\<lparr>textures := textures s - {terrain_tId s}, terrain_tId := 0\<rparr>)
                    else (cs, s))
             in Inr (cs @ [gl4duClean], s))"

definition is_release :: "call \<Rightarrow> bool" where
  "is_release c = (case c of free _ \<Rightarrow> True | glDeleteTextures _ \<Rightarrow> True | _ \<Rightarrow> False)"

subsection \<open>Auxiliary notions for the properties\<close>


definition no_key_held :: "app_state \<Rightarrow> bool" where
  "no_key_held s \<longleftrightarrow>
     \<not> held s KLEFT \<and> \<not> held s KRIGHT \<and> \<not> held s KUP \<and> \<not> held s KDOWN"

text \<open>
  The program after \<open>init\<close> with a height map whose samples are all the \<open>float\<close> nearest
  to one tenth.
\<close>

definition tenth_state :: app_state where
  "tenth_state = flat_state\<lparr>heap := [1 \<mapsto> replicate (513 * 513) (13421773 / 2 ^ 27)]\<rparr>"

text \<open>
  A bound on the rounding of a store: a \<open>GLfloat\<close> that receives the \<open>double\<close> sum \<open>v\<close>
  ends within \<open>store_bound v\<close> of \<open>v\<close>.
\<close>

definition store_bound :: "real \<Rightarrow> real" where
  "store_bound v = \<bar>v\<bar> / 2 ^ 23 + 1 / 2 ^ 149"

text \<open>
  The \<open>double\<close> values that a tick adds: \<open>dt * dtheta\<close> to the yaw, and
  \<open>-dt * pas * f(theta)\<close> or \<open>dt * pas * f(theta)\<close> to a coordinate, \<open>f\<close> being the sine for
  \<open>x\<close> and the cosine for \<open>z\<close>.
\<close>

definition dtheta_step :: "real \<Rightarrow> app_state \<Rightarrow> real" where
  "dtheta_step t s = f64 (tick_dt t s * M_PI)"

definition forward_step :: "(real \<Rightarrow> real) \<Rightarrow> real \<Rightarrow> real \<Rightarrow> real" where
  "forward_step f dt th = f64 (f64 (- dt * 5) * f th)"

definition backward_step :: "(real \<Rightarrow> real) \<Rightarrow> real \<Rightarrow> real \<Rightarrow> real" where
  "backward_step f dt th = f64 (f64 (dt * 5) * f th)"

text \<open>
  States used as examples: the program after \<open>init\<close> with some keys down, and after
  524288 seconds of cycle phase.
\<close>

definition both_rotations :: app_state where
  "both_rotations = flat_state\<lparr>keys := (\<lambda>k. 0)(KLEFT := 1, KRIGHT := 1)\<rparr>"

definition left_held :: app_state where
  "left_held = flat_state\<lparr>keys := (\<lambda>k. 0)(KLEFT := 1)\<rparr>"

definition forward_held :: app_state where
  "forward_held = flat_state\<lparr>keys := (\<lambda>k. 0)(KUP := 1)\<rparr>"

definition forward_backward_held :: app_state where
  "forward_backward_held = flat_state\<lparr>keys := (\<lambda>k. 0)(KUP := 1, KDOWN := 1)\<rparr>"

definition turning_forward :: app_state where
  "turning_forward = flat_state\<lparr>keys := (\<lambda>k. 0)(KLEFT := 1, KUP := 1)\<rparr>"

definition late_state :: app_state where
  "late_state = flat_state\<lparr>cycle := 524288\<rparr>"











text \<open>
  Both faces are filled or both are lines: the polygon modes that GL starts with and that
  \<open>keydown\<close> sets.
\<close>

definition fill_or_line :: "app_state \<Rightarrow> bool" where
  "fill_or_line s \<longleftrightarrow>
     polygon_front s = polygon_back s \<and> (polygon_front s = GL_FILL \<or> polygon_front s = GL_LINE)"

definition point_mode :: app_state where
  "point_mode = flat_state\<lparr>polygon_front := GL_POINT, polygon_back := GL_POINT\<rparr>"

text \<open>
  The height-map pointer is null or points to an allocated block, as it does from \<open>init\<close>
  on.
\<close>

definition handles_ok :: "app_state \<Rightarrow> bool" where
  "handles_ok s \<longleftrightarrow> heightMap s = 0 \<or> heightMap s \<in> dom (heap s)"

text \<open>The calls that \<open>quit\<close> makes and the state that it leaves.\<close>

definition quit_calls :: "app_state \<Rightarrow> call list" where
  "quit_calls s =
     [freeNoiseTextures]
     @ (if heightMap s \<noteq> 0 then [free (heightMap s)] else [])
     @ (if terrain_tId s \<noteq> 0 then [glDeleteTextures (terrain_tId s)] else [])
     @ [gl4duClean]"

definition after_quit :: "app_state \<Rightarrow> app_state" where
  "after_quit s =
     (let s = (if heightMap s \<noteq> 0
               then s\<lparr>heap := (heap s)(heightMap s := None), heightMap := 0\<rparr> else s)
      in if terrain_tId s \<noteq> 0
         then s\<lparr>textures := textures s - {terrain_tId s}, terrain_tId := 0\<rparr> else s)"

text \<open>
  The view of a camera at altitude \<open>y\<close>, and what the two submissions of a frame meet.
\<close>

definition view_of :: "app_state \<Rightarrow> int \<Rightarrow> real \<Rightarrow> mat_op" where
  "view_of s ym y =
     LookAt (cam_x (cam s)) (y + 2) (cam_z (cam s))
            (cam_x (cam s) - sin (cam_theta (cam s)))
            (y + 2 - of_int (ym - windowHeight s div 2) / of_int (windowHeight s))
            (cam_z (cam s) - cos (cam_theta (cam s)))
            0 1 0"

definition terrain_pass :: "app_state \<Rightarrow> mat_op \<Rightarrow> submission" where
  "terrain_pass s v =
     \<lparr>sub_mesh = landscape s, sub_program = landscape_pId s, sub_eau = Some 0,
      sub_texture_1d = terrain_tId s, sub_noise = Some (landscape_pId s, 1),
      sub_matrix = [v, Scale (landscape_scale_xz s) (landscape_scale_y s) (landscape_scale_xz s)]\<rparr>"

definition water_pass :: "app_state \<Rightarrow> mat_op \<Rightarrow> submission" where
  "water_pass s v =
     \<lparr>sub_mesh = plan s, sub_program = landscape_pId s, sub_eau = Some 1,
      sub_texture_1d = terrain_tId s, sub_noise = Some (landscape_pId s, 1),
      sub_matrix = [v, Scale (landscape_scale_xz s) (landscape_scale_y s) (landscape_scale_xz s),
                    Rotate (- 90) 1 0 0]\<rparr>"

text \<open>A GL context in which nothing is bound and nothing was submitted.\<close>

definition gl_start :: gl_machine where
  "gl_start =
     \<lparr>m_program = 0, m_uniform1i = Map.empty, m_texture_1d = 0, m_noise = None,
      m_modelview = [], m_sent = [], m_submissions = []\<rparr>"

section \<open>Properties\<close>

lemmas keycode_defs =
  SDLK_RIGHT_def SDLK_LEFT_def SDLK_DOWN_def SDLK_UP_def SDLK_ESCAPE_def key_w_def key_q_def

subsection \<open>Rounding\<close>

lemma round_half_even_of_int: "round_half_even (of_int n) = n"
  by (simp add: round_half_even_def)

lemma round_half_even_err: "\<bar>of_int (round_half_even y) - y\<bar> \<le> 1 / 2"
proof -
  have "of_int \<lfloor>y\<rfloor> \<le> y" "y < of_int \<lfloor>y\<rfloor> + 1" by linarith+
  then show ?thesis
    by (auto simp add: round_half_even_def Let_def)
qed

lemma powr_powi_2: "2 powr real_of_int k = 2 powi k" "2 powr (real_of_int k + 1) = 2 powi (k + 1)"
  using powr_real_of_int' [of 2 k] powr_real_of_int' [of 2 "k + 1"] by simp_all

lemma floor_log2_eq:
  assumes "2 powi k \<le> \<bar>x\<bar>" "\<bar>x\<bar> < 2 powi (k + 1)"
  shows "\<lfloor>log 2 \<bar>x\<bar>\<rfloor> = k"
proof -
  have "0 < (2::real) powi k" by simp
  then have pos: "0 < \<bar>x\<bar>"
    using assms(1) by linarith
  show ?thesis
    using floor_log_eq_powr_iff [OF pos, of 2 k] assms by (simp add: powr_powi_2)
qed

lemma floor_log2_bounds:
  assumes "x \<noteq> 0"
  shows "2 powi \<lfloor>log 2 \<bar>x\<bar>\<rfloor> \<le> \<bar>x\<bar> \<and> \<bar>x\<bar> < 2 powi (\<lfloor>log 2 \<bar>x\<bar>\<rfloor> + 1)"
proof -
  have pos: "0 < \<bar>x\<bar>" using assms by simp
  show ?thesis
    using floor_log_eq_powr_iff [OF pos, of 2 "\<lfloor>log 2 \<bar>x\<bar>\<rfloor>"] by (simp add: powr_powi_2)
qed

lemma fl_round_eval:
  assumes "2 powi k \<le> \<bar>x\<bar>" "\<bar>x\<bar> < 2 powi (k + 1)"
  shows "fl_round p emin x =
           of_int (round_half_even (x / 2 powi (max emin (k - int p + 1))))
           * 2 powi (max emin (k - int p + 1))"
proof -
  have "0 < (2::real) powi k" by simp
  then have "0 < \<bar>x\<bar>"
    using assms(1) by linarith
  then have "x \<noteq> 0" by simp
  then show ?thesis
    by (simp add: fl_round_def floor_log2_eq [OF assms] Let_def)
qed

lemma fl_round_exact:
  assumes x: "x = of_int m * 2 powi e" and m: "\<bar>m\<bar> < 2 ^ p" and e: "emin \<le> e"
  shows "fl_round p emin x = x"
proof (cases "x = 0")
  case True
  then show ?thesis by (simp add: fl_round_def)
next
  case False
  define k where "k = \<lfloor>log 2 \<bar>x\<bar>\<rfloor>"
  define e' where "e' = max emin (k - int p + 1)"
  have kb: "2 powi k \<le> \<bar>x\<bar>"
    using floor_log2_bounds [OF False] by (simp add: k_def)
  have "\<bar>x\<bar> = of_int \<bar>m\<bar> * 2 powi e"
    by (simp add: x abs_mult)
  also have "\<dots> < 2 ^ p * 2 powi e"
  proof -
    have "real_of_int \<bar>m\<bar> < 2 ^ p"
      using m by (metis of_int_less_iff of_int_numeral of_int_power)
    then show ?thesis
      by (intro mult_strict_right_mono) simp_all
  qed
  also have "\<dots> = 2 powi (int p + e)"
    by (simp add: power_int_add)
  finally have "2 powi k < (2::real) powi (int p + e)"
    using kb by linarith
  then have "k < int p + e"
    by (metis linorder_not_less one_le_numeral power_int_increasing)
  then have le: "e' \<le> e"
    using e by (simp add: e'_def)
  have "x / 2 powi e' = of_int m * 2 powi (e - e')"
    by (simp add: x power_int_diff)
  also have "\<dots> = of_int (m * 2 ^ nat (e - e'))"
    using le by (simp add: power_int_def)
  finally have q: "x / 2 powi e' = of_int (m * 2 ^ nat (e - e'))" .
  have "fl_round p emin x = of_int (round_half_even (x / 2 powi e')) * 2 powi e'"
    using False by (simp add: fl_round_def k_def e'_def Let_def)
  also have "\<dots> = (x / 2 powi e') * 2 powi e'"
    unfolding q round_half_even_of_int ..
  also have "\<dots> = x" by simp
  finally show ?thesis .
qed

lemma fl_round_err:
  "\<bar>fl_round p emin x - x\<bar> \<le> \<bar>x\<bar> / 2 ^ p + 2 powi (emin - 1)"
proof (cases "x = 0")
  case True
  then show ?thesis by (simp add: fl_round_def)
next
  case False
  define k where "k = \<lfloor>log 2 \<bar>x\<bar>\<rfloor>"
  define e where "e = max emin (k - int p + 1)"
  define y where "y = x / 2 powi e"
  have kb: "2 powi k \<le> \<bar>x\<bar>"
    using floor_log2_bounds [OF False] by (simp add: k_def)
  have fl: "fl_round p emin x = of_int (round_half_even y) * 2 powi e"
    using False by (simp add: fl_round_def k_def e_def y_def Let_def)
  have xy: "x = y * 2 powi e" by (simp add: y_def)
  have "\<bar>fl_round p emin x - x\<bar> = \<bar>of_int (round_half_even y) - y\<bar> * 2 powi e"
    unfolding fl by (subst xy) (simp add: abs_mult flip: left_diff_distrib)
  also have "\<dots> \<le> (1 / 2) * 2 powi e"
    by (intro mult_right_mono round_half_even_err) simp
  finally have h: "\<bar>fl_round p emin x - x\<bar> \<le> 2 powi e / 2" by simp
  show ?thesis
  proof (cases "emin \<le> k - int p + 1")
    case True
    then have "e = k - int p + 1" by (simp add: e_def)
    then have "2 powi e / 2 = (2::real) powi k / 2 ^ p"
      by (simp add: power_int_add power_int_diff)
    also have "\<dots> \<le> \<bar>x\<bar> / 2 ^ p"
      using kb by (simp add: divide_right_mono)
    finally show ?thesis
      using h zero_less_power_int [of "2::real" "emin - 1"] by linarith
  next
    case False
    then have "e = emin" by (simp add: e_def)
    then have "2 powi e / 2 = (2::real) powi (emin - 1)"
      by (simp add: power_int_diff)
    then show ?thesis
      using h by (smt (verit) divide_nonneg_nonneg abs_ge_zero zero_le_power zero_le_numeral)
  qed
qed

lemma f32_eval:
  "2 powi k \<le> \<bar>x\<bar> \<Longrightarrow> \<bar>x\<bar> < 2 powi (k + 1) \<Longrightarrow>
     f32 x = of_int (round_half_even (x / 2 powi (max (- 149) (k - 23))))
             * 2 powi (max (- 149) (k - 23))"
  using fl_round_eval [of k x 24 "- 149"] by (simp add: f32_def)

lemma f64_eval:
  "2 powi k \<le> \<bar>x\<bar> \<Longrightarrow> \<bar>x\<bar> < 2 powi (k + 1) \<Longrightarrow>
     f64 x = of_int (round_half_even (x / 2 powi (max (- 1074) (k - 52))))
             * 2 powi (max (- 1074) (k - 52))"
  using fl_round_eval [of k x 53 "- 1074"] by (simp add: f64_def)

lemma f32_0: "f32 0 = 0" by (simp add: f32_def fl_round_def)
lemma f64_0: "f64 0 = 0" by (simp add: f64_def fl_round_def)

lemma round_half_even_minus: "round_half_even (- y) = - round_half_even y"
proof (cases "y = of_int \<lfloor>y\<rfloor>")
  case True
  then have "round_half_even (- y) = round_half_even (of_int (- \<lfloor>y\<rfloor>))"
    by simp
  also have "\<dots> = - \<lfloor>y\<rfloor>"
    by (rule round_half_even_of_int)
  also have "\<dots> = - round_half_even (of_int \<lfloor>y\<rfloor>)"
    by (simp only: round_half_even_of_int)
  finally show ?thesis using True by simp
next
  case False
  then have fl: "\<lfloor>- y\<rfloor> = - \<lfloor>y\<rfloor> - 1"
    by (simp add: floor_minus ceiling_altdef)
  have "of_int \<lfloor>y\<rfloor> < y" "y < of_int \<lfloor>y\<rfloor> + 1"
    using False by linarith+
  then show ?thesis
    unfolding round_half_even_def Let_def fl by auto
qed

lemma fl_round_minus: "fl_round p emin (- x) = - fl_round p emin x"
  by (simp add: fl_round_def Let_def round_half_even_minus)

lemma f32_minus [simp]: "f32 (- x) = - f32 x"
  by (simp add: f32_def fl_round_minus)

lemma f64_minus [simp]: "f64 (- x) = - f64 x"
  by (simp add: f64_def fl_round_minus)

lemma f32_dyadic:
  "\<bar>m\<bar> < 2 ^ 24 \<Longrightarrow> n \<le> 149 \<Longrightarrow> f32 (of_int m / 2 ^ n) = of_int m / 2 ^ n"
  using fl_round_exact [of "of_int m / 2 ^ n" m "- int n" 24 "- 149"]
  by (simp add: f32_def power_int_minus field_simps)

lemma f64_dyadic:
  "\<bar>m\<bar> < 2 ^ 53 \<Longrightarrow> n \<le> 1074 \<Longrightarrow> f64 (of_int m / 2 ^ n) = of_int m / 2 ^ n"
  using fl_round_exact [of "of_int m / 2 ^ n" m "- int n" 53 "- 1074"]
  by (simp add: f64_def power_int_minus field_simps)

text \<open>Numbers of the examples that both formats hold.\<close>

lemma f32_values:
  "f32 1 = 1" "f32 (1 / 2) = 1 / 2" "f32 (3 / 2) = 3 / 2" "f32 256 = 256" "f32 10 = 10"
  "f32 (1025 / 2) = 1025 / 2" "f32 (1537 / 4) = 1537 / 4" "f32 (511 / 4) = 511 / 4"
  "f32 (2563 / 4) = 2563 / 4"
  using f32_dyadic [of 1 0] f32_dyadic [of 1 1] f32_dyadic [of 3 1] f32_dyadic [of 256 0]
    f32_dyadic [of 10 0] f32_dyadic [of 1025 1] f32_dyadic [of 1537 2] f32_dyadic [of 511 2]
    f32_dyadic [of 2563 2]
  by simp_all

lemma f64_values:
  "f64 1 = 1" "f64 2 = 2" "f64 10 = 10" "f64 256 = 256" "f64 (1 / 2) = 1 / 2"
  "f64 (513 / 2) = 513 / 2" "f64 (513 / 4) = 513 / 4" "f64 (1539 / 4) = 1539 / 4"
  "f64 (1025 / 2) = 1025 / 2" "f64 (1537 / 4) = 1537 / 4" "f64 (511 / 4) = 511 / 4"
  "f64 (2563 / 4) = 2563 / 4"
  using f64_dyadic [of 1 0] f64_dyadic [of 2 0] f64_dyadic [of 10 0] f64_dyadic [of 256 0]
    f64_dyadic [of 1 1] f64_dyadic [of 513 1] f64_dyadic [of 513 2] f64_dyadic [of 1539 2]
    f64_dyadic [of 1025 1] f64_dyadic [of 1537 2] f64_dyadic [of 511 2] f64_dyadic [of 2563 2]
  by simp_all

subsection \<open>Altitude lookup\<close>

lemma c_int_cast_nonneg: "0 \<le> v \<Longrightarrow> c_int_cast v = \<lfloor>v\<rfloor>"
  by (simp add: c_int_cast_def)

lemma grid_index_in_range:
  fixes ix iz w h :: int
  assumes "0 \<le> ix" "ix < w" "0 \<le> iz" "iz < h"
  shows "0 \<le> ix + iz * w \<and> ix + iz * w < w * h"
proof -
  have w: "0 < w" using assms by linarith
  have "iz + 1 \<le> h" using assms by linarith
  then have "(iz + 1) * w \<le> h * w"
    using w by (intro mult_right_mono) simp_all
  then have "ix + iz * w < h * w"
    using assms by (simp add: algebra_simps)
  moreover have "0 \<le> iz * w" using assms w by simp
  ultimately show ?thesis using assms by (simp add: mult.commute)
qed

lemma heightMapAltitude_in_range:
  assumes ok: "height_field_ok s hm"
    and gx: "0 \<le> grid_x s x" "grid_x s x < of_int (landscape_w s)"
    and gz: "0 \<le> grid_z s z" "grid_z s z < of_int (landscape_h s)"
  shows "heightMapAltitude x z s =
           Inr (f32 (f64 (f64 (f64 (2 * hm ! nat (\<lfloor>grid_x s x\<rfloor> + \<lfloor>grid_z s z\<rfloor> * landscape_w s))
                               - 1)
                          * landscape_scale_y s)))"
proof -
  let ?ix = "\<lfloor>grid_x s x\<rfloor>" and ?iz = "\<lfloor>grid_z s z\<rfloor>"
  have ix: "0 \<le> ?ix" "?ix < landscape_w s"
    using gx by (simp_all add: floor_less_iff)
  have iz: "0 \<le> ?iz" "?iz < landscape_h s"
    using gz by (simp_all add: floor_less_iff)
  have idx: "0 \<le> ?ix + ?iz * landscape_w s"
    "?ix + ?iz * landscape_w s < landscape_w s * landscape_h s"
    using grid_index_in_range [OF ix iz] by simp_all
  have "nat (?ix + ?iz * landscape_w s) < nat (landscape_w s * landscape_h s)"
    using idx by linarith
  moreover have "nat (landscape_w s * landscape_h s) \<le> length hm"
    using ok unfolding height_field_ok_def by blast
  ultimately have len: "nat (?ix + ?iz * landscape_w s) < length hm"
    by (rule less_le_trans)
  have ld: "load s (heightMap s) (?ix + ?iz * landscape_w s) =
              Inr (hm ! nat (?ix + ?iz * landscape_w s))"
    using ok idx(1) len by (simp add: load_def height_field_ok_def)
  show ?thesis
    using gx gz ld by (simp add: heightMapAltitude_def c_int_cast_nonneg)
qed

lemma c_int_cast_in_range:
  "0 \<le> v \<Longrightarrow> v < of_int w \<Longrightarrow> c_int_cast v \<in> {0 ..< w}"
  by (simp add: c_int_cast_def floor_less_iff)

lemma flat_state_ok: "height_field_ok flat_state (replicate (513 * 513) 1)"
  by (simp add: height_field_ok_def flat_state_def)

lemma tenth_state_ok: "height_field_ok tenth_state (replicate (513 * 513) (13421773 / 2 ^ 27))"
  by (simp add: height_field_ok_def tenth_state_def flat_state_def)

lemma flat_state_sizes:
  "landscape_w flat_state = 513" "landscape_h flat_state = 513"
  "landscape_scale_xz flat_state = 100" "landscape_scale_y flat_state = 10"
  by (simp_all add: flat_state_def)

lemma grid_x_flat:
  "grid_x flat_state (- 100) = - (1 / 2)" "grid_x flat_state 0 = 256"
  "grid_x flat_state 50 = 1537 / 4" "grid_x flat_state 100 = 1025 / 2"
  "grid_x flat_state 150 = 2563 / 4"
  by (simp_all add: grid_x_def flat_state_sizes f32_0 f64_0 f32_values f64_values)

lemma grid_z_flat:
  "grid_z flat_state 0 = 256" "grid_z flat_state 50 = 511 / 4"
  by (simp_all add: grid_z_def flat_state_sizes f32_0 f64_0 f32_values f64_values)

lemma grid_tenth:
  "grid_x tenth_state x = grid_x flat_state x" "grid_z tenth_state z = grid_z flat_state z"
  by (simp_all add: grid_x_def grid_z_def tenth_state_def)

lemma altitude_returns:
  assumes "height_field_ok s hm"
  shows "\<exists>y. heightMapAltitude x z s = Inr y"
proof (cases "0 \<le> grid_x s x \<and> grid_x s x < of_int (landscape_w s)
           \<and> 0 \<le> grid_z s z \<and> grid_z s z < of_int (landscape_h s)")
  case True
  then show ?thesis
    using heightMapAltitude_in_range [OF assms, of x z] by simp
next
  case False
  then show ?thesis
    by (auto simp add: heightMapAltitude_def Let_def)
qed

lemma altitude_tenth_values:
  "f64 (13421773 / 67108864) = 13421773 / 67108864"
  "f64 (53687091 / 67108864) = 53687091 / 67108864"
  "f64 (268435455 / 33554432) = 268435455 / 33554432"
  using f64_dyadic [of 13421773 26] f64_dyadic [of 53687091 26] f64_dyadic [of 268435455 25]
  by simp_all

lemma f32_near_eight: "f32 (268435455 / 33554432) = 8"
  by (subst f32_eval [where k = 2]) (simp_all add: round_half_even_def power_int_minus)

text \<open>
  C1, as the code has it. The grid coordinates of a world position are
  \<open>gridX = (W >> 1) + (worldX / horizScale) * (W / 2.0)\<close> and
  \<open>gridZ = (H >> 1) - (worldZ / horizScale) * (H / 2.0)\<close>, evaluated in the arithmetic of
  the code and stored as \<open>GLfloat\<close>: the offset is the integer half of the size, the
  factor its real half. Whenever the stored coordinates themselves, before truncation,
  lie in \<open>[0, W) \<times> [0, H)\<close>, their truncations lie there too and the altitude is
  \<open>(2 * sample - 1) * vertScale\<close> for the sample at the truncated coordinates, evaluated
  in \<open>double\<close> and rounded to \<open>GLfloat\<close>.
\<close>

theorem altitude_in_grid:
  assumes "height_field_ok s hm"
    and "0 \<le> grid_x s x" "grid_x s x < of_int (landscape_w s)"
    and "0 \<le> grid_z s z" "grid_z s z < of_int (landscape_h s)"
  shows "grid_x s x =
           f32 (f64 (of_int (landscape_w s div 2)
                     + f64 (f32 (x / landscape_scale_xz s) * f64 (of_int (landscape_w s) / 2))))
       \<and> grid_z s z =
           f32 (f64 (of_int (landscape_h s div 2)
                     - f64 (f32 (z / landscape_scale_xz s) * f64 (of_int (landscape_h s) / 2))))
       \<and> c_int_cast (grid_x s x) \<in> {0 ..< landscape_w s}
       \<and> c_int_cast (grid_z s z) \<in> {0 ..< landscape_h s}
       \<and> heightMapAltitude x z s =
           Inr (f32 (f64 (f64 (f64 (2 * hm ! nat (c_int_cast (grid_x s x)
                                                   + c_int_cast (grid_z s z) * landscape_w s))
                               - 1)
                          * landscape_scale_y s)))"
proof -
  have "c_int_cast (grid_x s x) = \<lfloor>grid_x s x\<rfloor>" "c_int_cast (grid_z s z) = \<lfloor>grid_z s z\<rfloor>"
    using assms by (simp_all add: c_int_cast_nonneg)
  moreover have "0 \<le> \<lfloor>grid_x s x\<rfloor>" "\<lfloor>grid_x s x\<rfloor> < landscape_w s"
    "0 \<le> \<lfloor>grid_z s z\<rfloor>" "\<lfloor>grid_z s z\<rfloor> < landscape_h s"
    using assms by (simp_all add: floor_less_iff)
  moreover have "grid_x s x =
           f32 (f64 (of_int (landscape_w s div 2)
                     + f64 (f32 (x / landscape_scale_xz s) * f64 (of_int (landscape_w s) / 2))))"
    "grid_z s z =
           f32 (f64 (of_int (landscape_h s div 2)
                     - f64 (f32 (z / landscape_scale_xz s) * f64 (of_int (landscape_h s) / 2))))"
    by (simp_all add: grid_x_def grid_z_def)
  ultimately show ?thesis
    using heightMapAltitude_in_range [OF assms] by simp
qed

text \<open>An instance: the world position \<open>(50, 50)\<close> on the flat height map.\<close>

theorem altitude_in_grid_witness:
  "height_field_ok flat_state (replicate (513 * 513) 1)
   \<and> 0 \<le> grid_x flat_state 50 \<and> grid_x flat_state 50 < of_int (landscape_w flat_state)
   \<and> 0 \<le> grid_z flat_state 50 \<and> grid_z flat_state 50 < of_int (landscape_h flat_state)
   \<and> c_int_cast (grid_x flat_state 50) = 384 \<and> c_int_cast (grid_z flat_state 50) = 127
   \<and> heightMapAltitude 50 50 flat_state = Inr 10"
proof -
  have h: "0 \<le> grid_x flat_state 50" "grid_x flat_state 50 < of_int (landscape_w flat_state)"
    "0 \<le> grid_z flat_state 50" "grid_z flat_state 50 < of_int (landscape_h flat_state)"
    by (simp_all add: grid_x_flat grid_z_flat flat_state_sizes)
  have cx: "c_int_cast (1537 / 4) = 384" "c_int_cast (511 / 4) = 127"
    by (simp_all add: c_int_cast_def)
  have "heightMapAltitude 50 50 flat_state = Inr 10"
    using altitude_in_grid [OF flat_state_ok h]
    by (simp add: grid_x_flat grid_z_flat flat_state_sizes cx f32_values f64_values)
  then show ?thesis
    using h flat_state_ok by (simp add: grid_x_flat grid_z_flat cx)
qed

text \<open>
  The statement fails in three ways. With the test on the truncated coordinates: the world
  position \<open>(-100, 0)\<close> has the grid coordinates \<open>(-1/2, 256)\<close>, which truncate to the
  node \<open>(0, 256)\<close> of the grid; its sample \<open>1\<close> would give the altitude \<open>10\<close>, and the
  code returns \<open>0\<close>, since \<open>-1/2\<close> is negative. With one and the same half in both
  places of the mapping: the world coordinate \<open>0\<close> is mapped to \<open>256\<close>, not to the real
  half \<open>513 / 2\<close>, and the world coordinate \<open>100\<close> to \<open>256 + 513 / 2\<close>, not to twice the
  integer half. With the exact value of the altitude: at the sample \<open>13421773 / 2 ^ 27\<close>,
  the \<open>float\<close> nearest to one tenth, the code returns \<open>- 8\<close>, and
  \<open>(2 * sample - 1) * 10\<close> is \<open>- 268435455 / 2 ^ 25\<close>.
\<close>

theorem altitude_truncated_counterexample:
  "c_int_cast (grid_x flat_state (- 100)) \<in> {0 ..< landscape_w flat_state}
   \<and> c_int_cast (grid_z flat_state 0) \<in> {0 ..< landscape_h flat_state}
   \<and> load flat_state (heightMap flat_state)
        (c_int_cast (grid_x flat_state (- 100))
         + c_int_cast (grid_z flat_state 0) * landscape_w flat_state) = Inr 1
   \<and> (2 * 1 - 1) * landscape_scale_y flat_state = 10
   \<and> heightMapAltitude (- 100) 0 flat_state = Inr 0
   \<and> heightMapAltitude (- 100) 0 flat_state \<noteq> Inr ((2 * 1 - 1) * landscape_scale_y flat_state)
   \<and> grid_x flat_state 0
       \<noteq> of_int (landscape_w flat_state) / 2
         + (0 / landscape_scale_xz flat_state) * (of_int (landscape_w flat_state) / 2)
   \<and> grid_x flat_state 100
       \<noteq> of_int (landscape_w flat_state div 2)
         + (100 / landscape_scale_xz flat_state) * of_int (landscape_w flat_state div 2)
   \<and> load tenth_state (heightMap tenth_state)
        (c_int_cast (grid_x tenth_state 0)
         + c_int_cast (grid_z tenth_state 0) * landscape_w tenth_state) = Inr (13421773 / 2 ^ 27)
   \<and> heightMapAltitude 0 0 tenth_state = Inr (- 8)
   \<and> heightMapAltitude 0 0 tenth_state
       \<noteq> Inr ((2 * (13421773 / 2 ^ 27) - 1) * landscape_scale_y tenth_state)"
proof -
  have cx: "c_int_cast (- (1 / 2)) = 0" "c_int_cast 256 = 256"
    by (simp_all add: c_int_cast_def ceiling_def)
  have ld: "load flat_state (heightMap flat_state) (0 + 256 * 513) = Inr 1"
    by (simp add: load_def flat_state_def)
  have alt: "heightMapAltitude (- 100) 0 flat_state = Inr 0"
    by (simp add: heightMapAltitude_def grid_x_flat grid_z_flat)
  have a: "c_int_cast (grid_x flat_state (- 100)) \<in> {0 ..< landscape_w flat_state}
   \<and> c_int_cast (grid_z flat_state 0) \<in> {0 ..< landscape_h flat_state}
   \<and> load flat_state (heightMap flat_state)
        (c_int_cast (grid_x flat_state (- 100))
         + c_int_cast (grid_z flat_state 0) * landscape_w flat_state) = Inr 1
   \<and> (2 * 1 - 1) * landscape_scale_y flat_state = 10
   \<and> heightMapAltitude (- 100) 0 flat_state = Inr 0
   \<and> heightMapAltitude (- 100) 0 flat_state \<noteq> Inr ((2 * 1 - 1) * landscape_scale_y flat_state)"
    using ld alt by (simp add: grid_x_flat grid_z_flat cx flat_state_sizes)
  have b: "grid_x flat_state 0
       \<noteq> of_int (landscape_w flat_state) / 2
         + (0 / landscape_scale_xz flat_state) * (of_int (landscape_w flat_state) / 2)
   \<and> grid_x flat_state 100
       \<noteq> of_int (landscape_w flat_state div 2)
         + (100 / landscape_scale_xz flat_state) * of_int (landscape_w flat_state div 2)"
    by (simp add: grid_x_flat flat_state_sizes)
  have sizes: "landscape_w tenth_state = 513" "landscape_h tenth_state = 513"
    "landscape_scale_y tenth_state = 10"
    by (simp_all add: tenth_state_def flat_state_def)
  have ld10: "load tenth_state (heightMap tenth_state) (256 + 256 * 513)
              = Inr (13421773 / 2 ^ 27)"
    by (simp add: load_def tenth_state_def flat_state_def)
  have alt10: "heightMapAltitude 0 0 tenth_state = Inr (- 8)"
    using ld10
    by (simp add: heightMapAltitude_def grid_tenth grid_x_flat grid_z_flat sizes cx
        altitude_tenth_values f32_near_eight)
  have c: "load tenth_state (heightMap tenth_state)
        (c_int_cast (grid_x tenth_state 0)
         + c_int_cast (grid_z tenth_state 0) * landscape_w tenth_state) = Inr (13421773 / 2 ^ 27)
   \<and> heightMapAltitude 0 0 tenth_state = Inr (- 8)
   \<and> heightMapAltitude 0 0 tenth_state
       \<noteq> Inr ((2 * (13421773 / 2 ^ 27) - 1) * landscape_scale_y tenth_state)"
    using ld10 alt10 by (simp add: grid_tenth grid_x_flat grid_z_flat sizes cx)
  show ?thesis
    using a b c by blast
qed

text \<open>
  C2. A world position whose grid coordinates lie outside \<open>[0, W) \<times> [0, H)\<close>, before or
  after truncation, has the altitude \<open>0\<close>; the lookup returns this value and fails in no
  way, whatever the height-map pointer is.
\<close>

theorem altitude_outside_grid:
  assumes "0 < landscape_scale_xz s"
    and "\<not> (0 \<le> grid_x s x \<and> grid_x s x < of_int (landscape_w s)
            \<and> 0 \<le> grid_z s z \<and> grid_z s z < of_int (landscape_h s))
         \<or> c_int_cast (grid_x s x) \<notin> {0 ..< landscape_w s}
         \<or> c_int_cast (grid_z s z) \<notin> {0 ..< landscape_h s}"
  shows "heightMapAltitude x z s = Inr 0"
proof -
  have "\<not> (0 \<le> grid_x s x \<and> grid_x s x < of_int (landscape_w s)
            \<and> 0 \<le> grid_z s z \<and> grid_z s z < of_int (landscape_h s))"
    using assms(2) c_int_cast_in_range [of "grid_x s x" "landscape_w s"]
      c_int_cast_in_range [of "grid_z s z" "landscape_h s"]
    by blast
  then show ?thesis
    by (auto simp add: heightMapAltitude_def Let_def)
qed

text \<open>An instance: the world position \<open>(150, 0)\<close>, east of the grid.\<close>

theorem altitude_outside_grid_witness:
  "0 < landscape_scale_xz flat_state
   \<and> \<not> (0 \<le> grid_x flat_state 150 \<and> grid_x flat_state 150 < of_int (landscape_w flat_state)
         \<and> 0 \<le> grid_z flat_state 0 \<and> grid_z flat_state 0 < of_int (landscape_h flat_state))
   \<and> heightMapAltitude 150 0 flat_state = Inr 0"
proof -
  have h1: "0 < landscape_scale_xz flat_state" by (simp add: flat_state_sizes)
  have h2: "\<not> (0 \<le> grid_x flat_state 150 \<and> grid_x flat_state 150 < of_int (landscape_w flat_state)
         \<and> 0 \<le> grid_z flat_state 0 \<and> grid_z flat_state 0 < of_int (landscape_h flat_state))"
    by (simp add: grid_x_flat flat_state_sizes)
  have "heightMapAltitude 150 0 flat_state = Inr 0"
    using h1 h2 by (intro altitude_outside_grid [of flat_state 150 0] disjI1)
  then show ?thesis
    using h1 h2 by (intro conjI)
qed

subsection \<open>Ticks\<close>

lemma f64_err: "\<bar>f64 v - v\<bar> \<le> \<bar>v\<bar> / 2 ^ 53 + 2 powi (- 1075)"
  using fl_round_err [of 53 "- 1074" v] by (simp add: f64_def)

lemma f32_err: "\<bar>f32 v - v\<bar> \<le> \<bar>v\<bar> / 2 ^ 24 + 2 powi (- 150)"
  using fl_round_err [of 24 "- 149" v] by (simp add: f32_def)

lemma tiny_powers:
  "(2::real) powi (- 1075) \<le> 2 powi (- 152)" "(2::real) powi (- 150) = 1 / 2 ^ 150"
  "(2::real) powi (- 152) = 1 / 2 ^ 152"
proof -
  show "(2::real) powi (- 1075) \<le> 2 powi (- 152)"
    by (rule power_int_increasing) simp_all
  show "(2::real) powi (- 150) = 1 / 2 ^ 150"
    using power_int_minus_divide [of "2::real" 150] by simp
  show "(2::real) powi (- 152) = 1 / 2 ^ 152"
    using power_int_minus_divide [of "2::real" 152] by simp
qed

lemma store_err: "\<bar>f32 (f64 v) - v\<bar> \<le> store_bound v"
proof -
  define a where "a = f64 v"
  define E where "E = (2::real) powi (- 1075)"
  have E: "0 < E" "E \<le> 1 / 2 ^ 152"
    using tiny_powers by (simp_all add: E_def)
  have 1: "\<bar>a - v\<bar> \<le> \<bar>v\<bar> / 2 ^ 53 + E"
    using f64_err [of v] by (simp add: a_def E_def)
  have 2: "\<bar>f32 a - a\<bar> \<le> \<bar>a\<bar> / 2 ^ 24 + 1 / 2 ^ 150"
    using f32_err [of a] by (simp add: tiny_powers)
  have 3: "\<bar>a\<bar> \<le> \<bar>v\<bar> + \<bar>v\<bar> / 2 ^ 53 + E"
    using 1 by linarith
  have 4: "\<bar>a\<bar> / 2 ^ 24 \<le> (\<bar>v\<bar> + \<bar>v\<bar> / 2 ^ 53 + E) / 2 ^ 24"
    using 3 by (simp add: divide_right_mono)
  have "\<bar>f32 a - v\<bar> \<le> \<bar>f32 a - a\<bar> + \<bar>a - v\<bar>" by linarith
  also have "\<dots> \<le> (\<bar>v\<bar> + \<bar>v\<bar> / 2 ^ 53 + E) / 2 ^ 24 + 1 / 2 ^ 150 + (\<bar>v\<bar> / 2 ^ 53 + E)"
    using 1 2 4 by linarith
  also have "\<dots> \<le> \<bar>v\<bar> / 2 ^ 23 + 1 / 2 ^ 149"
    using E abs_ge_zero [of v] by (simp add: field_simps)
  finally show ?thesis
    by (simp add: store_bound_def a_def)
qed

lemma add_assign_err: "\<bar>add_assign a d - (a + d)\<bar> \<le> store_bound (a + d)"
  by (simp add: add_assign_def store_err)

lemma sub_assign_err: "\<bar>sub_assign a d - (a - d)\<bar> \<le> store_bound (a - d)"
  by (simp add: sub_assign_def store_err)

lemma tick_dt_eq: "tick_dt t s = f64 (f64 (t - t0 s) / 1000)"
  by (simp add: tick_dt_def get_dt_def)




lemma idle_cycle: "cycle (idle sn cs t s) = add_assign (cycle s) (tick_dt t s)"
  by (simp add: idle_def get_dt_def held_def tick_dt_def Let_def)

lemma idle_theta:
  "cam_theta (cam (idle sn cs t s)) =
     (if held s KRIGHT
      then sub_assign (if held s KLEFT
                       then add_assign (cam_theta (cam s)) (dtheta_step t s)
                       else cam_theta (cam s))
                      (dtheta_step t s)
      else if held s KLEFT then add_assign (cam_theta (cam s)) (dtheta_step t s)
      else cam_theta (cam s))"
  by (simp add: idle_def get_dt_def held_def tick_dt_def dtheta_step_def Let_def)

lemma idle_x:
  "cam_x (cam (idle sn cs t s)) =
     (if held s KDOWN
      then add_assign (if held s KUP
                       then add_assign (cam_x (cam s))
                              (forward_step sn (tick_dt t s) (cam_theta (cam (idle sn cs t s))))
                       else cam_x (cam s))
                      (backward_step sn (tick_dt t s) (cam_theta (cam (idle sn cs t s))))
      else if held s KUP
      then add_assign (cam_x (cam s))
             (forward_step sn (tick_dt t s) (cam_theta (cam (idle sn cs t s))))
      else cam_x (cam s))"
  by (simp add: idle_def get_dt_def held_def tick_dt_def forward_step_def backward_step_def
      Let_def)

lemma idle_z:
  "cam_z (cam (idle sn cs t s)) =
     (if held s KDOWN
      then add_assign (if held s KUP
                       then add_assign (cam_z (cam s))
                              (forward_step cs (tick_dt t s) (cam_theta (cam (idle sn cs t s))))
                       else cam_z (cam s))
                      (backward_step cs (tick_dt t s) (cam_theta (cam (idle sn cs t s))))
      else if held s KUP
      then add_assign (cam_z (cam s))
             (forward_step cs (tick_dt t s) (cam_theta (cam (idle sn cs t s))))
      else cam_z (cam s))"
  by (simp add: idle_def get_dt_def held_def tick_dt_def forward_step_def backward_step_def
      Let_def)

text \<open>The numbers of a tick of 16 ms.\<close>

lemma f64_16: "f64 16 = 16" "f64 250 = 250" "f64 (1 / 4) = 1 / 4" "f32 (1 / 4) = 1 / 4"
  using f64_dyadic [of 16 0] f64_dyadic [of 250 0] f64_dyadic [of 1 2] f32_dyadic [of 1 2]
  by simp_all

lemma dt_16: "f64 (2 / 125) = 1152921504606847 / 72057594037927936"
  by (subst f64_eval [where k = "- 6"]) (simp_all add: round_half_even_def power_int_minus)

lemma f64_dt_16:
  "f64 (1152921504606847 / 72057594037927936) = 1152921504606847 / 72057594037927936"
  using f64_dyadic [of 1152921504606847 56] by simp

lemma f32_dt_16: "f32 (1152921504606847 / 72057594037927936) = 8589935 / 536870912"
  by (subst f32_eval [where k = "- 6"]) (simp_all add: round_half_even_def power_int_minus)

lemma f64_late:
  "f64 (37778933015878666316415 / 72057594037927936) = 4503599764809449 / 8589934592"
  by (subst f64_eval [where k = 19]) (simp_all add: round_half_even_def power_int_minus)

lemma f32_late: "f32 (4503599764809449 / 8589934592) = 524288"
  by (subst f32_eval [where k = 19]) (simp_all add: round_half_even_def power_int_minus)

lemma tick_dt_16: "t0 s = 0 \<Longrightarrow> tick_dt 16 s = 1152921504606847 / 72057594037927936"
  by (simp add: tick_dt_eq f64_16 dt_16)

lemma add_assign_16:
  "add_assign 0 (1152921504606847 / 72057594037927936) = 8589935 / 536870912"
  "add_assign 524288 (1152921504606847 / 72057594037927936) = 524288"
  by (simp_all add: add_assign_def f64_dt_16 f32_dt_16 f64_late f32_late)

text \<open>
  C10, as the code has it. A tick with none of the four flags set leaves the camera,
  position and yaw, exactly as it was. The cycle phase becomes the \<open>GLfloat\<close> nearest to
  the \<open>double\<close> sum of the phase and of the seconds \<open>dt\<close> that the tick sees: it advances
  by \<open>dt\<close> up to the rounding of that store, which is at most \<open>store_bound\<close> of the sum.
\<close>

theorem idle_without_keys:
  assumes "no_key_held s"
  shows "cam (idle sn cs t s) = cam s
       \<and> cycle (idle sn cs t s) = f32 (f64 (cycle s + tick_dt t s))
       \<and> \<bar>cycle (idle sn cs t s) - (cycle s + tick_dt t s)\<bar> \<le> store_bound (cycle s + tick_dt t s)
       \<and> tick_dt t s = f64 (f64 (t - t0 s) / 1000)"
proof -
  have "cam_theta (cam (idle sn cs t s)) = cam_theta (cam s)"
    using assms by (simp add: idle_theta no_key_held_def)
  moreover have "cam_x (cam (idle sn cs t s)) = cam_x (cam s)"
    using assms by (simp add: idle_x no_key_held_def)
  moreover have "cam_z (cam (idle sn cs t s)) = cam_z (cam s)"
    using assms by (simp add: idle_z no_key_held_def)
  ultimately have "cam (idle sn cs t s) = cam s"
    by (intro cam_t.equality) simp_all
  moreover have "cycle (idle sn cs t s) = f32 (f64 (cycle s + tick_dt t s))"
    by (simp add: idle_cycle add_assign_def)
  moreover have "\<bar>cycle (idle sn cs t s) - (cycle s + tick_dt t s)\<bar>
                 \<le> store_bound (cycle s + tick_dt t s)"
    by (simp add: idle_cycle add_assign_err)
  ultimately show ?thesis
    using tick_dt_eq [of t s] by (intro conjI)
qed

text \<open>An instance: a tick a quarter of a second after the start.\<close>

theorem idle_without_keys_witness:
  "no_key_held flat_state
   \<and> cam (idle sin cos 250 flat_state) = \<lparr>cam_x = 0, cam_z = 0, cam_theta = 0\<rparr>
   \<and> cycle (idle sin cos 250 flat_state) = 1 / 4"
proof -
  have h: "no_key_held flat_state"
    by (simp add: no_key_held_def held_def flat_state_def)
  have s: "cam flat_state = \<lparr>cam_x = 0, cam_z = 0, cam_theta = 0\<rparr>" "cycle flat_state = 0"
    "t0 flat_state = 0"
    by (simp_all add: flat_state_def)
  have dt: "tick_dt 250 flat_state = 1 / 4"
    by (simp add: tick_dt_eq s f64_16)
  show ?thesis
    using idle_without_keys [OF h, of sin cos 250] h by (simp add: s dt f64_16)
qed

text \<open>
  The phase does not advance by exactly \<open>dt\<close>. The first tick of 16 ms takes it from \<open>0\<close>
  to \<open>8589935 / 2 ^ 29\<close>, which is not the \<open>dt\<close> of that tick; and at the phase
  \<open>524288\<close> a tick of 16 ms leaves it where it was.
\<close>

theorem idle_cycle_counterexample:
  "no_key_held flat_state
   \<and> cycle flat_state = 0
   \<and> tick_dt 16 flat_state = 1152921504606847 / 72057594037927936
   \<and> cycle (idle sin cos 16 flat_state) = 8589935 / 536870912
   \<and> cycle (idle sin cos 16 flat_state) \<noteq> cycle flat_state + tick_dt 16 flat_state
   \<and> no_key_held late_state
   \<and> cycle late_state = 524288
   \<and> 0 < tick_dt 16 late_state
   \<and> cycle (idle sin cos 16 late_state) = cycle late_state"
proof -
  have h: "no_key_held flat_state" "no_key_held late_state"
    by (simp_all add: no_key_held_def held_def late_state_def flat_state_def)
  have s: "cycle flat_state = 0" "t0 flat_state = 0" "cycle late_state = 524288"
    "t0 late_state = 0"
    by (simp_all add: late_state_def flat_state_def)
  have dt: "tick_dt 16 flat_state = 1152921504606847 / 72057594037927936"
    "tick_dt 16 late_state = 1152921504606847 / 72057594037927936"
    by (simp_all add: tick_dt_16 s)
  have c: "cycle (idle sin cos 16 flat_state) = 8589935 / 536870912"
    "cycle (idle sin cos 16 late_state) = 524288"
    by (simp_all add: idle_cycle s dt add_assign_16)
  show ?thesis
    using h by (simp add: s dt c)
qed

lemma dtheta_16:
  "f64 (1019505104126898506584870341085 / 20282409603651670423947251286016)
   = 7244019458077123 / 144115188075855872"
  by (subst f64_eval [where k = "- 5"]) (simp_all add: round_half_even_def power_int_minus)

lemma dtheta_step_16:
  "t0 s = 0 \<Longrightarrow> dtheta_step 16 s = 7244019458077123 / 144115188075855872"
  by (simp add: dtheta_step_def tick_dt_16 M_PI_def dtheta_16)

lemma f64_dtheta_16:
  "f64 (7244019458077123 / 144115188075855872) = 7244019458077123 / 144115188075855872"
  "f64 (158633533 / 144115188075855872) = 158633533 / 144115188075855872"
  using f64_dyadic [of 7244019458077123 57] f64_dyadic [of 158633533 57] by simp_all

lemma f32_dtheta_16:
  "f32 (7244019458077123 / 144115188075855872) = 6746519 / 134217728"
  by (subst f32_eval [where k = "- 5"]) (simp_all add: round_half_even_def power_int_minus)

lemma f32_theta_left:
  "f32 (158633533 / 144115188075855872) = 2478649 / 2251799813685248"
  by (subst f32_eval [where k = "- 30"]) (simp_all add: round_half_even_def power_int_minus)

lemma rotation_16:
  "add_assign 0 (7244019458077123 / 144115188075855872) = 6746519 / 134217728"
  "sub_assign (6746519 / 134217728) (7244019458077123 / 144115188075855872)
   = 2478649 / 2251799813685248"
  by (simp_all add: add_assign_def sub_assign_def f64_dtheta_16 f32_dtheta_16 f32_theta_left)

text \<open>
  C3, as the code has it. A tick that sees \<open>dt\<close> seconds computes the \<open>double\<close>
  \<open>dt * M_PI\<close>; with the rotate-left flag set the yaw becomes the \<open>GLfloat\<close> nearest to
  the sum of the yaw and of that number, and with the rotate-right flag set the one
  nearest to the difference; the position of the camera has no part in it. Each store is
  within \<open>store_bound\<close> of the exact sum. With both flags set in a tick the yaw is the
  result of the two stores, which differs from the yaw before the tick by at most the two
  bounds.
\<close>

theorem rotation_per_tick:
  "cam_theta (cam (idle sn cs t s)) =
     (if held s KRIGHT
      then sub_assign (if held s KLEFT
                       then add_assign (cam_theta (cam s)) (dtheta_step t s)
                       else cam_theta (cam s))
                      (dtheta_step t s)
      else if held s KLEFT then add_assign (cam_theta (cam s)) (dtheta_step t s)
      else cam_theta (cam s))
   \<and> dtheta_step t s = f64 (tick_dt t s * M_PI)
   \<and> tick_dt t s = f64 (f64 (t - t0 s) / 1000)
   \<and> cam_theta (cam (idle sn cs t (s\<lparr>cam := (cam s)\<lparr>cam_x := x', cam_z := z'\<rparr>\<rparr>))) =
       cam_theta (cam (idle sn cs t s))
   \<and> (held s KLEFT \<and> \<not> held s KRIGHT \<longrightarrow>
        \<bar>cam_theta (cam (idle sn cs t s)) - (cam_theta (cam s) + dtheta_step t s)\<bar>
        \<le> store_bound (cam_theta (cam s) + dtheta_step t s))
   \<and> (held s KRIGHT \<and> \<not> held s KLEFT \<longrightarrow>
        \<bar>cam_theta (cam (idle sn cs t s)) - (cam_theta (cam s) - dtheta_step t s)\<bar>
        \<le> store_bound (cam_theta (cam s) - dtheta_step t s))
   \<and> (held s KLEFT \<and> held s KRIGHT \<longrightarrow>
        \<bar>cam_theta (cam (idle sn cs t s)) - cam_theta (cam s)\<bar>
        \<le> store_bound (cam_theta (cam s) + dtheta_step t s)
          + store_bound (add_assign (cam_theta (cam s)) (dtheta_step t s) - dtheta_step t s))"
proof -
  let ?th = "cam_theta (cam s)" and ?d = "dtheta_step t s"
  have indep: "cam_theta (cam (idle sn cs t (s\<lparr>cam := (cam s)\<lparr>cam_x := x', cam_z := z'\<rparr>\<rparr>))) =
       cam_theta (cam (idle sn cs t s))"
    by (simp add: idle_theta held_def dtheta_step_def tick_dt_eq)
  have left: "held s KLEFT \<and> \<not> held s KRIGHT \<longrightarrow>
        \<bar>cam_theta (cam (idle sn cs t s)) - (?th + ?d)\<bar> \<le> store_bound (?th + ?d)"
    by (simp add: idle_theta add_assign_err)
  have right: "held s KRIGHT \<and> \<not> held s KLEFT \<longrightarrow>
        \<bar>cam_theta (cam (idle sn cs t s)) - (?th - ?d)\<bar> \<le> store_bound (?th - ?d)"
    by (simp add: idle_theta sub_assign_err)
  have both: "held s KLEFT \<and> held s KRIGHT \<longrightarrow>
        \<bar>cam_theta (cam (idle sn cs t s)) - ?th\<bar>
        \<le> store_bound (?th + ?d) + store_bound (add_assign ?th ?d - ?d)"
  proof
    assume h: "held s KLEFT \<and> held s KRIGHT"
    have e1: "\<bar>add_assign ?th ?d - (?th + ?d)\<bar> \<le> store_bound (?th + ?d)"
      by (rule add_assign_err)
    have e2: "\<bar>sub_assign (add_assign ?th ?d) ?d - (add_assign ?th ?d - ?d)\<bar>
              \<le> store_bound (add_assign ?th ?d - ?d)"
      by (rule sub_assign_err)
    have "cam_theta (cam (idle sn cs t s)) = sub_assign (add_assign ?th ?d) ?d"
      using h by (simp add: idle_theta)
    then show "\<bar>cam_theta (cam (idle sn cs t s)) - ?th\<bar>
        \<le> store_bound (?th + ?d) + store_bound (add_assign ?th ?d - ?d)"
      using e1 e2 by linarith
  qed
  show ?thesis
    using idle_theta [of sn cs t s] dtheta_step_def [of t s] tick_dt_eq [of t s]
      indep left right both
    by (intro conjI)
qed

text \<open>An instance: a tick of 16 ms with both rotation keys down, and with the left one.\<close>

theorem rotation_per_tick_witness:
  "held both_rotations KLEFT \<and> held both_rotations KRIGHT
   \<and> held left_held KLEFT \<and> \<not> held left_held KRIGHT
   \<and> \<bar>cam_theta (cam (idle sin cos 16 both_rotations))\<bar> \<le> 1 / 2 ^ 26
   \<and> \<bar>cam_theta (cam (idle sin cos 16 left_held)) - 7244019458077123 / 2 ^ 57\<bar> \<le> 1 / 2 ^ 27"
proof -
  have h: "held both_rotations KLEFT \<and> held both_rotations KRIGHT"
    "held left_held KLEFT \<and> \<not> held left_held KRIGHT"
    by (simp_all add: held_def both_rotations_def left_held_def)
  have s: "cam_theta (cam both_rotations) = 0" "t0 both_rotations = 0"
    "cam_theta (cam left_held) = 0" "t0 left_held = 0"
    by (simp_all add: both_rotations_def left_held_def flat_state_def)
  have d: "dtheta_step 16 both_rotations = 7244019458077123 / 144115188075855872"
    "dtheta_step 16 left_held = 7244019458077123 / 144115188075855872"
    by (simp_all add: dtheta_step_16 s)
  have "\<bar>cam_theta (cam (idle sin cos 16 both_rotations)) - cam_theta (cam both_rotations)\<bar>
        \<le> store_bound (cam_theta (cam both_rotations) + dtheta_step 16 both_rotations)
          + store_bound (add_assign (cam_theta (cam both_rotations)) (dtheta_step 16 both_rotations)
                         - dtheta_step 16 both_rotations)"
    using rotation_per_tick [of sin cos 16 both_rotations 0 0] h by blast
  then have a: "\<bar>cam_theta (cam (idle sin cos 16 both_rotations))\<bar> \<le> 1 / 2 ^ 26"
    by (simp add: s d rotation_16 store_bound_def)
  have "\<bar>cam_theta (cam (idle sin cos 16 left_held))
         - (cam_theta (cam left_held) + dtheta_step 16 left_held)\<bar>
        \<le> store_bound (cam_theta (cam left_held) + dtheta_step 16 left_held)"
    using rotation_per_tick [of sin cos 16 left_held 0 0] h by blast
  then have b: "\<bar>cam_theta (cam (idle sin cos 16 left_held)) - 7244019458077123 / 2 ^ 57\<bar>
                \<le> 1 / 2 ^ 27"
    by (simp add: s d store_bound_def)
  show ?thesis
    using h a b by (intro conjI) simp_all
qed

text \<open>
  With both flags set the yaw is not left unchanged: a tick of 16 ms takes it from \<open>0\<close>
  to \<open>2478649 / 2 ^ 51\<close>. With the rotate-left flag alone the yaw after that tick,
  \<open>6746519 / 2 ^ 27\<close>, is not the yaw before plus \<open>dt * M_PI\<close>.
\<close>

theorem rotation_counterexample:
  "held both_rotations KLEFT \<and> held both_rotations KRIGHT
   \<and> cam_theta (cam both_rotations) = 0
   \<and> cam_theta (cam (idle sin cos 16 both_rotations)) = 2478649 / 2251799813685248
   \<and> cam_theta (cam (idle sin cos 16 both_rotations)) \<noteq> cam_theta (cam both_rotations)
   \<and> held left_held KLEFT \<and> \<not> held left_held KRIGHT
   \<and> cam_theta (cam left_held) = 0
   \<and> tick_dt 16 left_held = 1152921504606847 / 72057594037927936
   \<and> cam_theta (cam (idle sin cos 16 left_held)) = 6746519 / 134217728
   \<and> cam_theta (cam (idle sin cos 16 left_held))
       \<noteq> cam_theta (cam left_held) + tick_dt 16 left_held * M_PI"
proof -
  have h: "held both_rotations KLEFT \<and> held both_rotations KRIGHT"
    "held left_held KLEFT \<and> \<not> held left_held KRIGHT"
    by (simp_all add: held_def both_rotations_def left_held_def)
  have s: "cam_theta (cam both_rotations) = 0" "t0 both_rotations = 0"
    "cam_theta (cam left_held) = 0" "t0 left_held = 0"
    by (simp_all add: both_rotations_def left_held_def flat_state_def)
  have d: "dtheta_step 16 both_rotations = 7244019458077123 / 144115188075855872"
    "dtheta_step 16 left_held = 7244019458077123 / 144115188075855872"
    by (simp_all add: dtheta_step_16 s)
  have a: "cam_theta (cam (idle sin cos 16 both_rotations)) = 2478649 / 2251799813685248"
    using h by (simp add: idle_theta s d rotation_16)
  have b: "cam_theta (cam (idle sin cos 16 left_held)) = 6746519 / 134217728"
    using h by (simp add: idle_theta s d rotation_16)
  have dt: "tick_dt 16 left_held = 1152921504606847 / 72057594037927936"
    by (simp add: tick_dt_16 s)
  show ?thesis
    using h by (simp add: s a b dt M_PI_def)
qed

lemma backward_step_minus: "backward_step f dt th = - forward_step f dt th"
  by (simp add: backward_step_def forward_step_def)

lemma idle_theta_still:
  "\<not> held s KLEFT \<Longrightarrow> \<not> held s KRIGHT \<Longrightarrow>
     cam_theta (cam (idle sn cs t s)) = cam_theta (cam s)"
  by (simp add: idle_theta)

lemma add_back_err:
  "\<bar>add_assign (add_assign a f) (- f) - a\<bar>
   \<le> store_bound (a + f) + store_bound (add_assign a f - f)"
proof -
  have e1: "\<bar>add_assign a f - (a + f)\<bar> \<le> store_bound (a + f)"
    by (rule add_assign_err)
  have e2: "\<bar>add_assign (add_assign a f) (- f) - (add_assign a f + - f)\<bar>
            \<le> store_bound (add_assign a f + - f)"
    by (rule add_assign_err)
  then have "\<bar>add_assign (add_assign a f) (- f) - (add_assign a f - f)\<bar>
            \<le> store_bound (add_assign a f - f)"
    by simp
  then show ?thesis
    using e1 by linarith
qed

text \<open>The numbers of the examples.\<close>

lemma f64_more:
  "f64 5 = 5" "f64 500 = 500" "f64 1000 = 1000" "f64 (5 / 2) = 5 / 2" "f32 5 = 5"
  using f64_dyadic [of 5 0] f64_dyadic [of 500 0] f64_dyadic [of 1000 0] f64_dyadic [of 5 1]
    f32_dyadic [of 5 0]
  by simp_all

lemma step_16:
  "f64 (5764607523034235 / 72057594037927936) = 5764607523034235 / 72057594037927936"
  "f64 (128849019 / 72057594037927936) = 128849019 / 72057594037927936"
  using f64_dyadic [of 5764607523034235 56] f64_dyadic [of 128849019 56] by simp_all

lemma f32_step_16: "f32 (5764607523034235 / 72057594037927936) = 5368709 / 67108864"
  by (subst f32_eval [where k = "- 4"]) (simp_all add: round_half_even_def power_int_minus)

lemma f32_left_over: "f32 (128849019 / 72057594037927936) = 16106127 / 9007199254740992"
  by (subst f32_eval [where k = "- 30"]) (simp_all add: round_half_even_def power_int_minus)

lemma forward_step_16:
  "f 0 = 1 \<Longrightarrow>
     forward_step f (1152921504606847 / 72057594037927936) 0
     = - (5764607523034235 / 72057594037927936)"
  by (simp add: forward_step_def step_16)

lemma there_and_back_16:
  "add_assign 0 (- (5764607523034235 / 72057594037927936)) = - (5368709 / 67108864)"
  "add_assign (- (5368709 / 67108864)) (5764607523034235 / 72057594037927936)
   = 16106127 / 9007199254740992"
  by (simp_all add: add_assign_def step_16 f32_step_16 f32_left_over)

lemma half_turn:
  "f64 (884279719003555 / 562949953421312) = 884279719003555 / 562949953421312"
  using f64_dyadic [of 884279719003555 49] by simp

lemma f32_half_turn: "f32 (884279719003555 / 562949953421312) = 13176795 / 8388608"
  by (subst f32_eval [where k = 0]) (simp_all add: round_half_even_def power_int_minus)

lemma cos_quarter_turn: "cos (13176795 / 8388608 :: real) \<le> 1 / 2"
proof -
  have "pi / 3 \<le> 13176795 / 8388608"
    using pi_less_4 by simp
  moreover have "(13176795 / 8388608 :: real) \<le> pi"
    using pi_ge_two by simp
  moreover have "0 \<le> pi / 3" by simp
  ultimately have "cos (13176795 / 8388608 :: real) \<le> cos (pi / 3)"
    by (intro cos_monotone_0_pi_le)
  then show ?thesis by (simp add: cos_60)
qed

lemma store_from_zero_lower:
  assumes "- (5 / 4) \<le> v" "v \<le> 5 / 2"
  shows "- 2 < add_assign 0 (f64 v)"
proof -
  define E where "E = (2::real) powi (- 1075)"
  have E: "0 < E" "E \<le> 1 / 2 ^ 152"
    using tiny_powers by (simp_all add: E_def)
  have av: "\<bar>v\<bar> \<le> 5 / 2" using assms by linarith
  have 1: "\<bar>f64 v - v\<bar> \<le> \<bar>v\<bar> / 2 ^ 53 + E"
    using f64_err [of v] by (simp add: E_def)
  have "\<bar>v\<bar> / 2 ^ 53 \<le> (5 / 2) / 2 ^ 53"
    using av by (simp add: divide_right_mono)
  then have 2: "\<bar>f64 v - v\<bar> \<le> 1 / 100"
    using 1 E by simp
  then have a: "- (5 / 4) - 1 / 100 \<le> f64 v" "\<bar>f64 v\<bar> \<le> 5 / 2 + 1 / 100"
    using assms by linarith+
  have "\<bar>add_assign 0 (f64 v) - (0 + f64 v)\<bar> \<le> store_bound (0 + f64 v)"
    by (rule add_assign_err)
  then have 3: "\<bar>add_assign 0 (f64 v) - f64 v\<bar> \<le> \<bar>f64 v\<bar> / 2 ^ 23 + 1 / 2 ^ 149"
    by (simp add: store_bound_def)
  have "\<bar>f64 v\<bar> / 2 ^ 23 \<le> (5 / 2 + 1 / 100) / 2 ^ 23"
    using a(2) by (simp add: divide_right_mono)
  then have "\<bar>add_assign 0 (f64 v) - f64 v\<bar> \<le> 1 / 100"
    using 3 by simp
  then show ?thesis
    using a(1) by linarith
qed

text \<open>
  C4, as the code has it. A tick that sees \<open>dt\<close> seconds adds the \<open>double\<close>
  \<open>-dt * 5 * sin theta\<close> to \<open>x\<close> and \<open>-dt * 5 * cos theta\<close> to \<open>z\<close> when the forward flag
  is set, and the negated numbers when the backward flag is set, each sum stored as a
  \<open>GLfloat\<close>. \<open>theta\<close> is the yaw after the rotation of the same tick, which is the yaw
  before the tick when no rotation flag is set. With both flags set the position differs
  from the one before the tick by at most the rounding of the two stores. With the
  forward key alone, one second and yaw \<open>0\<close>, the camera goes from \<open>(0, 0)\<close> to
  \<open>(0, -5)\<close>, for every libm whose sine of \<open>0\<close> is \<open>0\<close> and whose cosine of \<open>0\<close> is \<open>1\<close>.
\<close>

theorem translation_per_tick:
  "cam_x (cam (idle sn cs t s)) =
     (if held s KDOWN
      then add_assign (if held s KUP
                       then add_assign (cam_x (cam s))
                              (forward_step sn (tick_dt t s) (cam_theta (cam (idle sn cs t s))))
                       else cam_x (cam s))
                      (backward_step sn (tick_dt t s) (cam_theta (cam (idle sn cs t s))))
      else if held s KUP
      then add_assign (cam_x (cam s))
             (forward_step sn (tick_dt t s) (cam_theta (cam (idle sn cs t s))))
      else cam_x (cam s))
   \<and> cam_z (cam (idle sn cs t s)) =
     (if held s KDOWN
      then add_assign (if held s KUP
                       then add_assign (cam_z (cam s))
                              (forward_step cs (tick_dt t s) (cam_theta (cam (idle sn cs t s))))
                       else cam_z (cam s))
                      (backward_step cs (tick_dt t s) (cam_theta (cam (idle sn cs t s))))
      else if held s KUP
      then add_assign (cam_z (cam s))
             (forward_step cs (tick_dt t s) (cam_theta (cam (idle sn cs t s))))
      else cam_z (cam s))
   \<and> forward_step f dt th = f64 (f64 (- dt * 5) * f th)
   \<and> backward_step f dt th = - forward_step f dt th
   \<and> add_assign a d = f32 (f64 (a + d))
   \<and> (\<not> held s KLEFT \<and> \<not> held s KRIGHT \<longrightarrow>
        cam_theta (cam (idle sn cs t s)) = cam_theta (cam s))
   \<and> (held s KUP \<and> held s KDOWN \<longrightarrow>
        \<bar>cam_x (cam (idle sn cs t s)) - cam_x (cam s)\<bar>
        \<le> store_bound (cam_x (cam s)
                        + forward_step sn (tick_dt t s) (cam_theta (cam (idle sn cs t s))))
          + store_bound (add_assign (cam_x (cam s))
                           (forward_step sn (tick_dt t s) (cam_theta (cam (idle sn cs t s))))
                         - forward_step sn (tick_dt t s) (cam_theta (cam (idle sn cs t s))))
        \<and> \<bar>cam_z (cam (idle sn cs t s)) - cam_z (cam s)\<bar>
        \<le> store_bound (cam_z (cam s)
                        + forward_step cs (tick_dt t s) (cam_theta (cam (idle sn cs t s))))
          + store_bound (add_assign (cam_z (cam s))
                           (forward_step cs (tick_dt t s) (cam_theta (cam (idle sn cs t s))))
                         - forward_step cs (tick_dt t s) (cam_theta (cam (idle sn cs t s)))))
   \<and> keydown SDLK_UP flat_state = Inr forward_held
   \<and> (sn 0 = 0 \<and> cs 0 = 1 \<longrightarrow>
        tick_dt 1000 forward_held = 1
        \<and> cam forward_held = \<lparr>cam_x = 0, cam_z = 0, cam_theta = 0\<rparr>
        \<and> cam (idle sn cs 1000 forward_held) = \<lparr>cam_x = 0, cam_z = - 5, cam_theta = 0\<rparr>)"
proof -
  let ?th = "cam_theta (cam (idle sn cs t s))" and ?dt = "tick_dt t s"
  have th: "\<not> held s KLEFT \<and> \<not> held s KRIGHT \<longrightarrow> ?th = cam_theta (cam s)"
    by (simp add: idle_theta)
  have both: "held s KUP \<and> held s KDOWN \<longrightarrow>
        \<bar>cam_x (cam (idle sn cs t s)) - cam_x (cam s)\<bar>
        \<le> store_bound (cam_x (cam s) + forward_step sn ?dt ?th)
          + store_bound (add_assign (cam_x (cam s)) (forward_step sn ?dt ?th)
                         - forward_step sn ?dt ?th)
        \<and> \<bar>cam_z (cam (idle sn cs t s)) - cam_z (cam s)\<bar>
        \<le> store_bound (cam_z (cam s) + forward_step cs ?dt ?th)
          + store_bound (add_assign (cam_z (cam s)) (forward_step cs ?dt ?th)
                         - forward_step cs ?dt ?th)"
  proof
    assume h: "held s KUP \<and> held s KDOWN"
    have x: "cam_x (cam (idle sn cs t s))
             = add_assign (add_assign (cam_x (cam s)) (forward_step sn ?dt ?th))
                          (- forward_step sn ?dt ?th)"
      using h idle_x [of sn cs t s] by (simp add: backward_step_minus)
    have z: "cam_z (cam (idle sn cs t s))
             = add_assign (add_assign (cam_z (cam s)) (forward_step cs ?dt ?th))
                          (- forward_step cs ?dt ?th)"
      using h idle_z [of sn cs t s] by (simp add: backward_step_minus)
    show "\<bar>cam_x (cam (idle sn cs t s)) - cam_x (cam s)\<bar>
        \<le> store_bound (cam_x (cam s) + forward_step sn ?dt ?th)
          + store_bound (add_assign (cam_x (cam s)) (forward_step sn ?dt ?th)
                         - forward_step sn ?dt ?th)
        \<and> \<bar>cam_z (cam (idle sn cs t s)) - cam_z (cam s)\<bar>
        \<le> store_bound (cam_z (cam s) + forward_step cs ?dt ?th)
          + store_bound (add_assign (cam_z (cam s)) (forward_step cs ?dt ?th)
                         - forward_step cs ?dt ?th)"
      unfolding x z by (intro conjI add_back_err)
  qed
  have kd: "keydown SDLK_UP flat_state = Inr forward_held"
    by (simp add: keydown_def forward_held_def flat_state_def keycode_defs)
  have sc: "sn 0 = 0 \<and> cs 0 = 1 \<longrightarrow>
        tick_dt 1000 forward_held = 1
        \<and> cam forward_held = \<lparr>cam_x = 0, cam_z = 0, cam_theta = 0\<rparr>
        \<and> cam (idle sn cs 1000 forward_held) = \<lparr>cam_x = 0, cam_z = - 5, cam_theta = 0\<rparr>"
  proof
    assume a: "sn 0 = 0 \<and> cs 0 = 1"
    have k: "held forward_held KUP" "\<not> held forward_held KDOWN" "\<not> held forward_held KLEFT"
      "\<not> held forward_held KRIGHT"
      by (simp_all add: held_def forward_held_def)
    have c0: "cam forward_held = \<lparr>cam_x = 0, cam_z = 0, cam_theta = 0\<rparr>" "t0 forward_held = 0"
      by (simp_all add: forward_held_def flat_state_def)
    have dt: "tick_dt 1000 forward_held = 1"
      by (simp add: tick_dt_eq c0 f64_more f64_values)
    have t1: "cam_theta (cam (idle sn cs 1000 forward_held)) = 0"
      using k by (simp add: idle_theta c0)
    have x1: "cam_x (cam (idle sn cs 1000 forward_held)) = 0"
      using k a by (simp add: idle_x t1 dt c0 forward_step_def add_assign_def f64_more f64_0 f32_0)
    have z1: "cam_z (cam (idle sn cs 1000 forward_held)) = - 5"
      using k a by (simp add: idle_z t1 dt c0 forward_step_def add_assign_def f64_more)
    have "cam (idle sn cs 1000 forward_held) = \<lparr>cam_x = 0, cam_z = - 5, cam_theta = 0\<rparr>"
      by (intro cam_t.equality) (simp_all add: t1 x1 z1)
    then show "tick_dt 1000 forward_held = 1
        \<and> cam forward_held = \<lparr>cam_x = 0, cam_z = 0, cam_theta = 0\<rparr>
        \<and> cam (idle sn cs 1000 forward_held) = \<lparr>cam_x = 0, cam_z = - 5, cam_theta = 0\<rparr>"
      using dt c0 by (intro conjI)
  qed
  show ?thesis
    using idle_x [of sn cs t s] idle_z [of sn cs t s] forward_step_def [of f dt th]
      backward_step_minus [of f dt th] add_assign_def [of a d] th both kd sc
    by (intro conjI)
qed

text \<open>
  An instance: a tick of 16 ms with the forward and the backward key down, and the second
  of the forward key, with the exact sine and cosine.
\<close>

theorem translation_per_tick_witness:
  "\<not> held forward_backward_held KLEFT \<and> \<not> held forward_backward_held KRIGHT
   \<and> held forward_backward_held KUP \<and> held forward_backward_held KDOWN
   \<and> sin (0::real) = 0 \<and> cos (0::real) = 1
   \<and> cam_theta (cam (idle sin cos 16 forward_backward_held)) = 0
   \<and> \<bar>cam_z (cam (idle sin cos 16 forward_backward_held))\<bar> \<le> 1 / 2 ^ 25
   \<and> cam (idle sin cos 1000 forward_held) = \<lparr>cam_x = 0, cam_z = - 5, cam_theta = 0\<rparr>"
proof -
  let ?s = forward_backward_held
  have h: "\<not> held ?s KLEFT \<and> \<not> held ?s KRIGHT" "held ?s KUP \<and> held ?s KDOWN"
    by (simp_all add: held_def forward_backward_held_def)
  have tr: "sin (0::real) = 0 \<and> cos (0::real) = 1" by simp
  have s: "cam_theta (cam ?s) = 0" "cam_z (cam ?s) = 0" "t0 ?s = 0"
    by (simp_all add: forward_backward_held_def flat_state_def)
  note T = translation_per_tick [of sin cos 16 ?s cos 0 0 0 0]
  have th: "cam_theta (cam (idle sin cos 16 ?s)) = 0"
    using T h s by simp
  have "\<bar>cam_z (cam (idle sin cos 16 ?s)) - cam_z (cam ?s)\<bar>
        \<le> store_bound (cam_z (cam ?s)
                        + forward_step cos (tick_dt 16 ?s) (cam_theta (cam (idle sin cos 16 ?s))))
          + store_bound (add_assign (cam_z (cam ?s))
                           (forward_step cos (tick_dt 16 ?s) (cam_theta (cam (idle sin cos 16 ?s))))
                         - forward_step cos (tick_dt 16 ?s) (cam_theta (cam (idle sin cos 16 ?s))))"
    using T h by blast
  then have z: "\<bar>cam_z (cam (idle sin cos 16 ?s))\<bar> \<le> 1 / 2 ^ 25"
    by (simp add: th s tick_dt_16 forward_step_16 there_and_back_16 store_bound_def)
  have "cam (idle sin cos 1000 forward_held) = \<lparr>cam_x = 0, cam_z = - 5, cam_theta = 0\<rparr>"
    using T tr by blast
  then show ?thesis
    using h th z by (intro conjI) simp_all
qed

text \<open>
  The move is not made at the yaw before the tick: with the left and the forward key down
  for half a second from yaw \<open>0\<close>, the formula at yaw \<open>0\<close> gives \<open>z = - 5 / 2\<close>, and the
  tick turns the camera to \<open>13176795 / 2 ^ 23\<close> first and leaves \<open>z\<close> above \<open>- 2\<close>. And
  both keys do not sum to zero: a tick of 16 ms at the origin leaves
  \<open>z = 16106127 / 2 ^ 53\<close>.
\<close>

theorem translation_counterexample:
  "held turning_forward KLEFT \<and> held turning_forward KUP
   \<and> cam turning_forward = \<lparr>cam_x = 0, cam_z = 0, cam_theta = 0\<rparr>
   \<and> tick_dt 500 turning_forward = 1 / 2
   \<and> cam_z (cam turning_forward)
       - tick_dt 500 turning_forward * 5 * cos (cam_theta (cam turning_forward)) = - (5 / 2)
   \<and> cam_theta (cam (idle sin cos 500 turning_forward)) = 13176795 / 8388608
   \<and> - 2 < cam_z (cam (idle sin cos 500 turning_forward))
   \<and> held forward_backward_held KUP \<and> held forward_backward_held KDOWN
   \<and> cam forward_backward_held = \<lparr>cam_x = 0, cam_z = 0, cam_theta = 0\<rparr>
   \<and> cam_z (cam (idle sin cos 16 forward_backward_held)) = 16106127 / 9007199254740992
   \<and> cam_z (cam (idle sin cos 16 forward_backward_held)) \<noteq> cam_z (cam forward_backward_held)"
proof -
  let ?s = turning_forward and ?b = forward_backward_held
  have k: "held ?s KLEFT" "held ?s KUP" "\<not> held ?s KRIGHT" "\<not> held ?s KDOWN"
    by (simp_all add: held_def turning_forward_def)
  have c: "cam ?s = \<lparr>cam_x = 0, cam_z = 0, cam_theta = 0\<rparr>" "t0 ?s = 0"
    by (simp_all add: turning_forward_def flat_state_def)
  have dt: "tick_dt 500 ?s = 1 / 2"
    by (simp add: tick_dt_eq c f64_more f64_values)
  have th: "cam_theta (cam (idle sin cos 500 ?s)) = 13176795 / 8388608"
    using k
    by (simp add: idle_theta c dtheta_step_def dt M_PI_def add_assign_def half_turn f32_half_turn)
  have zeq: "cam_z (cam (idle sin cos 500 ?s))
        = add_assign 0 (f64 (- (5 / 2) * cos (13176795 / 8388608)))"
    using k by (simp add: idle_z th dt c forward_step_def f64_more)
  have v1: "- (5 / 4) \<le> - (5 / 2) * cos (13176795 / 8388608 :: real)"
    using cos_quarter_turn by linarith
  have v2: "- (5 / 2) * cos (13176795 / 8388608 :: real) \<le> 5 / 2"
    using cos_ge_minus_one [of "13176795 / 8388608 :: real"] by linarith
  have z: "- 2 < cam_z (cam (idle sin cos 500 ?s))"
    unfolding zeq by (rule store_from_zero_lower [OF v1 v2])
  have a: "held ?s KLEFT \<and> held ?s KUP
     \<and> cam ?s = \<lparr>cam_x = 0, cam_z = 0, cam_theta = 0\<rparr>
     \<and> tick_dt 500 ?s = 1 / 2
     \<and> cam_z (cam ?s) - tick_dt 500 ?s * 5 * cos (cam_theta (cam ?s)) = - (5 / 2)
     \<and> cam_theta (cam (idle sin cos 500 ?s)) = 13176795 / 8388608
     \<and> - 2 < cam_z (cam (idle sin cos 500 ?s))"
    using k z by (simp add: c dt th)
  have kb: "held ?b KUP" "held ?b KDOWN" "\<not> held ?b KLEFT" "\<not> held ?b KRIGHT"
    by (simp_all add: held_def forward_backward_held_def)
  have cb: "cam ?b = \<lparr>cam_x = 0, cam_z = 0, cam_theta = 0\<rparr>" "t0 ?b = 0"
    by (simp_all add: forward_backward_held_def flat_state_def)
  have thb: "cam_theta (cam (idle sin cos 16 ?b)) = 0"
    using kb by (simp add: idle_theta cb)
  have zb: "cam_z (cam (idle sin cos 16 ?b)) = 16106127 / 9007199254740992"
    using kb
    by (simp add: idle_z thb cb tick_dt_16 backward_step_minus forward_step_16 there_and_back_16)
  have b: "held ?b KUP \<and> held ?b KDOWN
     \<and> cam ?b = \<lparr>cam_x = 0, cam_z = 0, cam_theta = 0\<rparr>
     \<and> cam_z (cam (idle sin cos 16 ?b)) = 16106127 / 9007199254740992
     \<and> cam_z (cam (idle sin cos 16 ?b)) \<noteq> cam_z (cam ?b)"
    using kb by (simp add: cb zb)
  show ?thesis
    using a b by blast
qed






















subsection \<open>Frame\<close>

lemma draw_passes:
  assumes "heightMapAltitude (cam_x (cam s)) (cam_z (cam s)) s = Inr y"
  shows "\<exists>cs. draw ym s = Inr cs
          \<and> filter is_draw cs = [gl4dgDraw (landscape s), gl4dgDraw (plan s)]
          \<and> m_submissions (gl_run m cs) =
              m_submissions m @ [terrain_pass s (view_of s ym y), water_pass s (view_of s ym y)]
          \<and> m_noise (gl_run m cs) = None
          \<and> last cs = unuseNoiseTextures 1"
  using assms
  by (simp add: draw_def Let_def is_draw_def gl_run_def terrain_pass_def water_pass_def
      view_of_def)

text \<open>
  C6. A frame submits exactly two draws, in this order. The terrain mesh comes first,
  with the surface selector \<open>eau\<close> at \<open>0\<close>, the colour-ramp texture bound and the noise
  textures in use. The water plane comes second, under the matrix of the terrain followed
  by the rotation of \<open>-90\<close> degrees about the X axis, with \<open>eau\<close> at \<open>1\<close> and the noise
  textures still in use; they are released by the last call of the frame.
\<close>

theorem draw_two_passes:
  assumes "height_field_ok s hm"
  shows "\<exists>cs y. draw ym s = Inr cs
          \<and> heightMapAltitude (cam_x (cam s)) (cam_z (cam s)) s = Inr y
          \<and> filter is_draw cs = [gl4dgDraw (landscape s), gl4dgDraw (plan s)]
          \<and> m_submissions (gl_run m cs) =
              m_submissions m @ [terrain_pass s (view_of s ym y), water_pass s (view_of s ym y)]
          \<and> m_noise (gl_run m cs) = None
          \<and> last cs = unuseNoiseTextures 1"
proof -
  obtain y where y: "heightMapAltitude (cam_x (cam s)) (cam_z (cam s)) s = Inr y"
    using altitude_returns [OF assms] by blast
  from draw_passes [OF y, of ym m] obtain cs where
    "draw ym s = Inr cs"
    "filter is_draw cs = [gl4dgDraw (landscape s), gl4dgDraw (plan s)]"
    "m_submissions (gl_run m cs) =
              m_submissions m @ [terrain_pass s (view_of s ym y), water_pass s (view_of s ym y)]"
    "m_noise (gl_run m cs) = None"
    "last cs = unuseNoiseTextures 1"
    by blast
  with y show ?thesis
    by (intro exI [of _ cs] exI [of _ y] conjI)
qed

text \<open>An instance: a frame of the flat height map, the pointer at mid-height.\<close>

theorem draw_two_passes_witness:
  "height_field_ok flat_state (replicate (513 * 513) 1)
   \<and> (\<exists>cs. draw 300 flat_state = Inr cs
          \<and> filter is_draw cs = [gl4dgDraw 2, gl4dgDraw 1]
          \<and> length (m_submissions (gl_run gl_start cs)) = 2
          \<and> last cs = unuseNoiseTextures 1)"
proof -
  from draw_two_passes [OF flat_state_ok, of 300 gl_start] obtain cs y where
    d: "draw 300 flat_state = Inr cs"
      "filter is_draw cs = [gl4dgDraw (landscape flat_state), gl4dgDraw (plan flat_state)]"
      "m_submissions (gl_run gl_start cs) =
         m_submissions gl_start
         @ [terrain_pass flat_state (view_of flat_state 300 y),
            water_pass flat_state (view_of flat_state 300 y)]"
      "last cs = unuseNoiseTextures 1"
    by blast
  have "landscape flat_state = 2" "plan flat_state = 1"
    by (simp_all add: flat_state_def)
  then have "draw 300 flat_state = Inr cs
          \<and> filter is_draw cs = [gl4dgDraw 2, gl4dgDraw 1]
          \<and> length (m_submissions (gl_run gl_start cs)) = 2
          \<and> last cs = unuseNoiseTextures 1"
    using d by (simp add: gl_start_def)
  then show ?thesis
    using flat_state_ok by blast
qed

subsection \<open>Shutdown\<close>

lemma quit_ok:
  assumes "handles_ok s"
  shows "quit s = Inr (quit_calls s, after_quit s)"
proof (cases "heightMap s = 0")
  case True
  then show ?thesis
    by (cases "terrain_tId s = 0")
       (simp_all add: quit_def quit_calls_def after_quit_def Let_def)
next
  case False
  then have "heightMap s \<in> dom (heap s)"
    using assms by (simp add: handles_ok_def)
  with False show ?thesis
    by (cases "terrain_tId s = 0")
       (simp_all add: quit_def quit_calls_def after_quit_def c_free_def Let_def)
qed

lemma quit_fails:
  "\<not> handles_ok s \<Longrightarrow> quit s = Inl InvalidFree"
  by (simp add: quit_def handles_ok_def c_free_def)

text \<open>
  C7. Two shutdowns in a row both return, and nothing is freed twice. The first frees the
  height map exactly when its pointer is not null and deletes the colour-ramp texture
  exactly when its name is not zero, and it leaves both handles cleared; the second
  therefore makes neither call and changes nothing.
\<close>

theorem quit_twice:
  assumes "handles_ok s"
  shows "\<exists>cs1 s1 cs2 s2.
           quit s = Inr (cs1, s1) \<and> quit s1 = Inr (cs2, s2)
           \<and> (free (heightMap s) \<in> set cs1 \<longleftrightarrow> heightMap s \<noteq> 0)
           \<and> (glDeleteTextures (terrain_tId s) \<in> set cs1 \<longleftrightarrow> terrain_tId s \<noteq> 0)
           \<and> length (filter is_release cs1) \<le> 2
           \<and> heightMap s1 = 0 \<and> terrain_tId s1 = 0
           \<and> cs2 = [freeNoiseTextures, gl4duClean]
           \<and> filter is_release cs2 = []
           \<and> s2 = s1"
proof -
  let ?s1 = "after_quit s"
  have q1: "quit s = Inr (quit_calls s, ?s1)"
    using assms by (rule quit_ok)
  have h1: "heightMap ?s1 = 0" "terrain_tId ?s1 = 0"
    by (simp_all add: after_quit_def Let_def)
  have q2: "quit ?s1 = Inr ([freeNoiseTextures, gl4duClean], ?s1)"
    using h1 by (simp add: quit_def)
  have c1: "free (heightMap s) \<in> set (quit_calls s) \<longleftrightarrow> heightMap s \<noteq> 0"
    "glDeleteTextures (terrain_tId s) \<in> set (quit_calls s) \<longleftrightarrow> terrain_tId s \<noteq> 0"
    "length (filter is_release (quit_calls s)) \<le> 2"
    by (simp_all add: quit_calls_def is_release_def)
  have c2: "filter is_release [freeNoiseTextures, gl4duClean] = []"
    by (simp add: is_release_def)
  show ?thesis
    by (rule exI [of _ "quit_calls s"], rule exI [of _ ?s1],
        rule exI [of _ "[freeNoiseTextures, gl4duClean]"], rule exI [of _ ?s1])
       (simp add: q1 q2 h1 c1 is_release_def)
qed

text \<open>An instance: two shutdowns of the program after \<open>init\<close>.\<close>

theorem quit_twice_witness:
  "handles_ok flat_state
   \<and> (\<exists>s1. quit flat_state = Inr ([freeNoiseTextures, free 1, glDeleteTextures 1, gl4duClean], s1)
          \<and> quit s1 = Inr ([freeNoiseTextures, gl4duClean], s1))"
proof -
  have h: "handles_ok flat_state"
    by (simp add: handles_ok_def flat_state_def)
  have c: "quit_calls flat_state = [freeNoiseTextures, free 1, glDeleteTextures 1, gl4duClean]"
    by (simp add: quit_calls_def flat_state_def)
  from quit_twice [OF h] obtain cs1 s1 cs2 s2 where
    q: "quit flat_state = Inr (cs1, s1)" "quit s1 = Inr (cs2, s2)"
      "cs2 = [freeNoiseTextures, gl4duClean]" "s2 = s1"
    by blast
  have "cs1 = quit_calls flat_state"
    using q(1) quit_ok [OF h] by simp
  then have "quit flat_state = Inr ([freeNoiseTextures, free 1, glDeleteTextures 1, gl4duClean], s1)
          \<and> quit s1 = Inr ([freeNoiseTextures, gl4duClean], s1)"
    using q c by simp
  then show ?thesis
    using h by blast
qed

subsection \<open>Keyboard\<close>

lemma toggle_wireframe_eq:
  "toggle_wireframe s =
     glPolygonMode_FRONT_AND_BACK (if polygon_front s = GL_FILL then GL_LINE else GL_FILL) s"
  by (simp add: toggle_wireframe_def keydown_def keycode_defs Let_def)

lemma polygon_mode_stays:
  "polygon_front s = a \<Longrightarrow> polygon_back s = a \<Longrightarrow> s\<lparr>polygon_front := a, polygon_back := a\<rparr> = s"
proof -
  assume "polygon_front s = a" "polygon_back s = a"
  then have "s\<lparr>polygon_front := a, polygon_back := a\<rparr>
             = s\<lparr>polygon_front := polygon_front s, polygon_back := polygon_back s\<rparr>"
    by simp
  also have "\<dots> = s" by simp
  finally show ?thesis .
qed

text \<open>The callbacks keep the polygon mode filled or lines on both faces.\<close>

lemma keyup_polygon:
  "polygon_front (keyup k s) = polygon_front s \<and> polygon_back (keyup k s) = polygon_back s"
  by (simp add: keyup_def)

lemma idle_polygon:
  "polygon_front (idle sn cs t s) = polygon_front s
   \<and> polygon_back (idle sn cs t s) = polygon_back s"
  by (simp add: idle_def get_dt_def Let_def)

lemma keydown_fill_or_line:
  assumes "fill_or_line s" and "keydown k s = Inr s'"
  shows "fill_or_line s'"
proof (cases "k = key_w")
  case True
  then have "s' = toggle_wireframe s"
    using assms(2) by (simp add: toggle_wireframe_def)
  then show ?thesis
    by (simp add: toggle_wireframe_eq glPolygonMode_FRONT_AND_BACK_def fill_or_line_def)
next
  case False
  then have "polygon_front s' = polygon_front s \<and> polygon_back s' = polygon_back s"
    using assms(2) by (auto simp add: keydown_def split: if_splits)
  then show ?thesis
    using assms(1) unfolding fill_or_line_def by auto
qed

text \<open>
  C8, as the code has it. From a polygon mode that is filled or lines, the two modes of
  the program, two presses of the wireframe key restore the state; one press changes the
  mode, reads nothing but the mode of the GL context and changes nothing else.
\<close>

theorem wireframe_toggle_twice:
  assumes "fill_or_line s"
  shows "toggle_wireframe (toggle_wireframe s) = s
         \<and> polygon_front (toggle_wireframe s) \<noteq> polygon_front s
         \<and> fill_or_line (toggle_wireframe s)
         \<and> keydown key_w s = Inr (toggle_wireframe s)
         \<and> toggle_wireframe s =
             s\<lparr>polygon_front := (if polygon_front s = GL_FILL then GL_LINE else GL_FILL),
               polygon_back := (if polygon_front s = GL_FILL then GL_LINE else GL_FILL)\<rparr>"
proof -
  have kd: "keydown key_w s = Inr (toggle_wireframe s)"
    by (simp add: toggle_wireframe_def keydown_def keycode_defs Let_def)
  have eq: "toggle_wireframe s =
             s\<lparr>polygon_front := (if polygon_front s = GL_FILL then GL_LINE else GL_FILL),
               polygon_back := (if polygon_front s = GL_FILL then GL_LINE else GL_FILL)\<rparr>"
    by (simp add: toggle_wireframe_eq glPolygonMode_FRONT_AND_BACK_def)
  have ne: "polygon_front (toggle_wireframe s) \<noteq> polygon_front s"
    by (simp add: eq)
  have fl: "fill_or_line (toggle_wireframe s)"
    by (simp add: eq fill_or_line_def)
  have twice: "toggle_wireframe (toggle_wireframe s) = s"
  proof (cases "polygon_front s = GL_FILL")
    case True
    then have b: "polygon_back s = GL_FILL"
      using assms by (simp add: fill_or_line_def)
    have "toggle_wireframe (toggle_wireframe s)
          = s\<lparr>polygon_front := GL_FILL, polygon_back := GL_FILL\<rparr>"
      using True by (simp add: toggle_wireframe_eq glPolygonMode_FRONT_AND_BACK_def)
    then show ?thesis
      using polygon_mode_stays [OF True b] by simp
  next
    case False
    then have f: "polygon_front s = GL_LINE" and b: "polygon_back s = GL_LINE"
      using assms unfolding fill_or_line_def by auto
    have "toggle_wireframe (toggle_wireframe s)
          = s\<lparr>polygon_front := GL_LINE, polygon_back := GL_LINE\<rparr>"
      using f by (simp add: toggle_wireframe_eq glPolygonMode_FRONT_AND_BACK_def)
    then show ?thesis
      using polygon_mode_stays [OF f b] by simp
  qed
  show ?thesis
    using twice ne fl kd eq by (intro conjI)
qed

text \<open>An instance: the filled mode that GL starts with.\<close>

theorem wireframe_toggle_twice_witness:
  "fill_or_line flat_state
   \<and> toggle_wireframe (toggle_wireframe flat_state) = flat_state
   \<and> polygon_front (toggle_wireframe flat_state) = GL_LINE"
proof -
  have h: "fill_or_line flat_state"
    by (simp add: fill_or_line_def flat_state_def)
  have "polygon_front (toggle_wireframe flat_state) = GL_LINE"
    by (simp add: toggle_wireframe_eq glPolygonMode_FRONT_AND_BACK_def flat_state_def)
  moreover have "toggle_wireframe (toggle_wireframe flat_state) = flat_state"
    using wireframe_toggle_twice [OF h] by (rule conjunct1)
  ultimately show ?thesis
    using h by (intro conjI)
qed

text \<open>
  The third polygon mode of GL is not restored: from points the first press gives the
  filled mode and the second gives lines.
\<close>

theorem wireframe_toggle_point_counterexample:
  "polygon_front point_mode = GL_POINT
   \<and> polygon_front (toggle_wireframe (toggle_wireframe point_mode)) = GL_LINE
   \<and> toggle_wireframe (toggle_wireframe point_mode) \<noteq> point_mode"
proof -
  have a: "polygon_front point_mode = GL_POINT"
    by (simp add: point_mode_def)
  have b: "polygon_front (toggle_wireframe (toggle_wireframe point_mode)) = GL_LINE"
    by (simp add: toggle_wireframe_eq glPolygonMode_FRONT_AND_BACK_def point_mode_def)
  have "toggle_wireframe (toggle_wireframe point_mode) \<noteq> point_mode"
  proof
    assume "toggle_wireframe (toggle_wireframe point_mode) = point_mode"
    then have "polygon_front (toggle_wireframe (toggle_wireframe point_mode)) = GL_POINT"
      using a by simp
    then show False using b by simp
  qed
  then show ?thesis using a b by simp
qed

text \<open>
  C9. A key code that is none of the four arrows, the wireframe key, Escape and \<open>q\<close> is
  ignored by \<open>keydown\<close> and by \<open>keyup\<close>: the state after the event is the state before.
\<close>

theorem unrecognised_key_ignored:
  assumes "keycode \<notin> recognised_keys"
  shows "keydown keycode s = Inr s \<and> keyup keycode s = s"
  using assms by (simp add: recognised_keys_def keydown_def keyup_def)

text \<open>An instance: the key \<open>a\<close>.\<close>

theorem unrecognised_key_ignored_witness:
  "97 \<notin> recognised_keys \<and> keydown 97 flat_state = Inr flat_state
   \<and> keyup 97 flat_state = flat_state"
proof -
  have h: "97 \<notin> recognised_keys"
    by (simp add: recognised_keys_def keycode_defs)
  show ?thesis
    using unrecognised_key_ignored [OF h, of flat_state] h by simp
qed

end
